theory Spec2Isabelle
  imports Main "HOL-Library.AList"
begin

section \<open>Data model\<close>

text \<open>
  The values that \<open>encoding/json\<close> hands to the package when it decodes into \<open>any\<close> with
  \<open>UseNumber\<close>: \<open>nil\<close>, \<open>bool\<close>, \<open>json.Number\<close> (the literal text of the number),
  \<open>string\<close>, \<open>[]any\<close> and \<open>map[string]any\<close>. A Go map is an association list; its
  entries are listed in one of the orders in which \<open>range\<close> may visit them, \<open>m[k]\<close> is
  \<open>map_of m k\<close> and \<open>m[k] = v\<close> is \<open>AList.update k v m\<close>. The byte level (tokenising
  and printing JSON text) belongs to the standard library and is not part of the model:
  a byte sequence is represented by the JSON value it denotes.
\<close>

datatype json =
    JNull
  | JBool bool
  | JNum string
  | JStr string
  | JArr "json list"
  | JObj "(string \<times> json) list"

type_synonym gomap = "(string \<times> json) list"

text \<open>
  A Go slice that may be \<open>nil\<close> is an \<open>option\<close> of a list: \<open>None\<close> is the nil slice,
  \<open>Some []\<close> the empty slice that is not nil. A pointer field (\<open>*string\<close>, \<open>*int\<close>) is
  an \<open>option\<close> of the value it points to. \<open>int\<close> is the 64-bit Go \<open>int\<close>; the decoder
  only stores values that \<open>Int64\<close> returned.
\<close>

record Span =
  Span_Type :: string
  Span_Text :: "string option"
  Span_Marks :: "string list option"
  Span_Raw :: gomap

record MarkDef =
  MarkDef_Key :: string
  MarkDef_Type :: string
  MarkDef_Raw :: gomap

record Node =
  Node_Type :: string
  Node_Key :: string
  Node_Style :: "string option"
  Node_Children :: "Span list option"
  Node_MarkDefs :: "MarkDef list option"
  Node_ListItem :: "string option"
  Node_Level :: "int option"
  Node_Raw :: gomap

type_synonym Document = "Node list option"

text \<open>\<open>range\<close> and \<open>len\<close> treat the nil slice as the empty one.\<close>

fun elems :: "'a list option \<Rightarrow> 'a list" where
  "elems None = []"
| "elems (Some xs) = xs"

record ValidationOptions =
  RequireKeys :: bool
  CheckMarkDefRefs :: bool
  AllowEmptyText :: bool

record ValidationError =
  VE_Path :: string
  VE_Message :: string
  VE_Node :: Node

datatype errkind =
    ErrMissingType
  | ErrInvalidType
  | ErrExpectedObject
  | ErrExpectedArray
  | ErrInvalidMarks
  | ErrInvalidNumber
  | ErrUnexpectedToken
  | ErrJSON

record Error =
  Op :: string
  Path :: string
  Err :: errkind

text \<open>\<open>wrap\<close> is only ever called with an error that is not nil.\<close>

definition wrap :: "string \<Rightarrow> string \<Rightarrow> errkind \<Rightarrow> Error" where
  "wrap op path err = \<lparr>Op = op, Path = path, Err = err\<rparr>"

section \<open>Formatting and parsing integers\<close>

text \<open>\<open>fmt.Sprintf("%d", i)\<close> for an index, and for the \<open>int\<close> that \<open>level\<close> holds.\<close>

definition digit_char :: "nat \<Rightarrow> char" where
  "digit_char d = ''0123456789'' ! d"

function showNat :: "nat \<Rightarrow> string" where
  "showNat n = (if n < 10 then [digit_char n] else showNat (n div 10) @ [digit_char (n mod 10)])"
  by pat_completeness auto
termination
  by (relation "measure id") auto

declare showNat.simps [simp del]

definition showInt :: "int \<Rightarrow> string" where
  "showInt i = (if i < 0 then CHR ''-'' # showNat (nat (- i)) else showNat (nat i))"

text \<open>
  \<open>json.Number.Int64\<close> is \<open>strconv.ParseInt(s, 10, 64)\<close>: an optional sign, then at
  least one decimal digit and nothing else, and the value must fit 64 bits.
\<close>

definition is_digit :: "char \<Rightarrow> bool" where
  "is_digit c = ((48::nat) \<le> of_char c \<and> (of_char c :: nat) \<le> 57)"

definition digits_val :: "string \<Rightarrow> int" where
  "digits_val ds = foldl (\<lambda>a c. 10 * a + (of_char c - 48)) 0 ds"

definition Int64 :: "string \<Rightarrow> int option" where
  "Int64 s =
     (let neg = (s \<noteq> [] \<and> hd s = CHR ''-'');
          ds = (if s \<noteq> [] \<and> (hd s = CHR ''-'' \<or> hd s = CHR ''+'') then tl s else s)
      in if ds = [] then None
         else if list_all is_digit ds then
           (let un = digits_val ds
            in if neg then (if un > 2 ^ 63 then None else Some (- un))
               else (if un \<ge> 2 ^ 63 then None else Some un))
         else None)"

section \<open>Decoder\<close>

text \<open>
  \<open>decodeObjectUseNumber\<close>: decoding \<open>null\<close> into a map leaves the map nil without an
  error, which the function reports as \<open>ErrExpectedObject\<close>; any other value that is
  not an object is a type error of the library (\<open>ErrJSON\<close>).
\<close>

fun decodeObjectUseNumber :: "json \<Rightarrow> errkind + gomap" where
  "decodeObjectUseNumber (JObj obj) = Inr obj"
| "decodeObjectUseNumber JNull = Inl ErrExpectedObject"
| "decodeObjectUseNumber _ = Inl ErrJSON"

text \<open>The test \<open>t.(string)\<close> followed by \<open>ts == ""\<close> on the discriminator.\<close>

fun type_string :: "json \<Rightarrow> string option" where
  "type_string (JStr ts) = (if ts = [] then None else Some ts)"
| "type_string _ = None"

subsection \<open>Spans\<close>

text \<open>The loop over the elements of \<open>marks\<close>: every element must be a string.\<close>

fun parse_marks :: "string \<Rightarrow> json list \<Rightarrow> string list \<Rightarrow> Error + string list" where
  "parse_marks path [] marks = Inr marks"
| "parse_marks path (JStr ms # a) marks = parse_marks path a (marks @ [ms])"
| "parse_marks path (_ # a) marks = Inl (wrap ''span'' (path @ ''.marks'') ErrInvalidMarks)"

text \<open>One iteration of \<open>for k, v := range obj\<close> in \<open>parseSpan\<close>.\<close>

definition parseSpan_field :: "string \<Rightarrow> string \<Rightarrow> json \<Rightarrow> Span \<Rightarrow> Error + Span" where
  "parseSpan_field path k v s =
     (if k = ''_type'' then Inr s
      else if k = ''text'' then
        (if v = JNull then Inr (s\<lparr>Span_Raw := AList.update k JNull (Span_Raw s)\<rparr>)
         else case v of
            JStr str \<Rightarrow> Inr (s\<lparr>Span_Text := Some str\<rparr>)
          | _ \<Rightarrow> Inr (s\<lparr>Span_Raw := AList.update k v (Span_Raw s)\<rparr>))
      else if k = ''marks'' then
        (if v = JNull then Inr (s\<lparr>Span_Raw := AList.update k JNull (Span_Raw s)\<rparr>)
         else case v of
            JArr a \<Rightarrow>
              (case parse_marks path a [] of
                 Inl e \<Rightarrow> Inl e
               | Inr marks \<Rightarrow> Inr (s\<lparr>Span_Marks := Some marks\<rparr>))
          | _ \<Rightarrow> Inl (wrap ''span'' (path @ ''.marks'') ErrInvalidMarks))
      else Inr (s\<lparr>Span_Raw := AList.update k v (Span_Raw s)\<rparr>))"

fun parseSpan_loop :: "string \<Rightarrow> gomap \<Rightarrow> Span \<Rightarrow> Error + Span" where
  "parseSpan_loop path [] s = Inr s"
| "parseSpan_loop path ((k, v) # obj) s =
     (case parseSpan_field path k v s of
        Inl e \<Rightarrow> Inl e
      | Inr s' \<Rightarrow> parseSpan_loop path obj s')"

definition parseSpan :: "json \<Rightarrow> string \<Rightarrow> Error + Span" where
  "parseSpan b path =
     (case decodeObjectUseNumber b of
        Inl err \<Rightarrow> Inl (wrap ''span'' path err)
      | Inr obj \<Rightarrow>
          (case map_of obj ''_type'' of
             None \<Rightarrow> Inl (wrap ''span'' path ErrMissingType)
           | Some t \<Rightarrow>
               (case type_string t of
                  None \<Rightarrow> Inl (wrap ''span'' path ErrInvalidType)
                | Some ts \<Rightarrow>
                    parseSpan_loop path obj
                      \<lparr>Span_Type = ts, Span_Text = None, Span_Marks = None, Span_Raw = []\<rparr>)))"

text \<open>
  The loop of \<open>parseSpanArray\<close> over the items, \<open>i\<close> being the index of the first item
  of the list; \<open>json.Marshal(item)\<close> followed by decoding gives the item back.
\<close>

fun parseSpan_items :: "string \<Rightarrow> nat \<Rightarrow> json list \<Rightarrow> Error + Span list" where
  "parseSpan_items path i [] = Inr []"
| "parseSpan_items path i (item # arr) =
     (case parseSpan item (path @ ''['' @ showNat i @ '']'') of
        Inl e \<Rightarrow> Inl e
      | Inr s \<Rightarrow>
          (case parseSpan_items path (Suc i) arr of
             Inl e \<Rightarrow> Inl e
           | Inr out \<Rightarrow> Inr (s # out)))"

text \<open>Both successful returns of \<open>parseSpanArray\<close> are slices that are not nil.\<close>

fun parseSpanArray :: "json \<Rightarrow> string \<Rightarrow> Error + Span list" where
  "parseSpanArray (JArr arr) path = (if arr = [] then Inr [] else parseSpan_items path 0 arr)"
| "parseSpanArray _ path = Inl (wrap ''node'' path ErrExpectedArray)"

subsection \<open>Mark definitions\<close>

text \<open>The first block of \<open>parseMarkDef\<close>, on \<open>obj["_key"]\<close>.\<close>

definition parseMarkDef_key :: "gomap \<Rightarrow> MarkDef \<Rightarrow> MarkDef" where
  "parseMarkDef_key obj md =
     (case map_of obj ''_key'' of
        None \<Rightarrow> md
      | Some k \<Rightarrow>
          (if k = JNull then md\<lparr>MarkDef_Raw := AList.update ''_key'' JNull (MarkDef_Raw md)\<rparr>
           else case k of
              JStr ks \<Rightarrow> md\<lparr>MarkDef_Key := ks\<rparr>
            | _ \<Rightarrow> md\<lparr>MarkDef_Raw := AList.update ''_key'' k (MarkDef_Raw md)\<rparr>))"

fun parseMarkDef_loop :: "gomap \<Rightarrow> MarkDef \<Rightarrow> MarkDef" where
  "parseMarkDef_loop [] md = md"
| "parseMarkDef_loop ((k, v) # obj) md =
     (if k = ''_type'' \<or> k = ''_key'' then parseMarkDef_loop obj md
      else parseMarkDef_loop obj (md\<lparr>MarkDef_Raw := AList.update k v (MarkDef_Raw md)\<rparr>))"

definition parseMarkDef :: "json \<Rightarrow> string \<Rightarrow> Error + MarkDef" where
  "parseMarkDef b path =
     (case decodeObjectUseNumber b of
        Inl err \<Rightarrow> Inl (wrap ''markDef'' path err)
      | Inr obj \<Rightarrow>
          (case map_of obj ''_type'' of
             None \<Rightarrow> Inl (wrap ''markDef'' path ErrMissingType)
           | Some t \<Rightarrow>
               (case type_string t of
                  None \<Rightarrow> Inl (wrap ''markDef'' path ErrInvalidType)
                | Some ts \<Rightarrow>
                    Inr (parseMarkDef_loop obj
                      (parseMarkDef_key obj
                        \<lparr>MarkDef_Key = [], MarkDef_Type = ts, MarkDef_Raw = []\<rparr>)))))"

fun parseMarkDef_items :: "string \<Rightarrow> nat \<Rightarrow> json list \<Rightarrow> Error + MarkDef list" where
  "parseMarkDef_items path i [] = Inr []"
| "parseMarkDef_items path i (item # arr) =
     (case parseMarkDef item (path @ ''['' @ showNat i @ '']'') of
        Inl e \<Rightarrow> Inl e
      | Inr md \<Rightarrow>
          (case parseMarkDef_items path (Suc i) arr of
             Inl e \<Rightarrow> Inl e
           | Inr out \<Rightarrow> Inr (md # out)))"

fun parseMarkDefArray :: "json \<Rightarrow> string \<Rightarrow> Error + MarkDef list" where
  "parseMarkDefArray (JArr arr) path =
     (if arr = [] then Inr [] else parseMarkDef_items path 0 arr)"
| "parseMarkDefArray _ path = Inl (wrap ''node'' path ErrExpectedArray)"

subsection \<open>Nodes\<close>

text \<open>One iteration of \<open>for k, v := range obj\<close> in \<open>parseNode\<close>.\<close>

definition parseNode_field :: "string \<Rightarrow> string \<Rightarrow> json \<Rightarrow> Node \<Rightarrow> Error + Node" where
  "parseNode_field path k v n =
     (if k = ''_type'' then Inr n
      else if k = ''_key'' then
        (if v = JNull then Inr (n\<lparr>Node_Raw := AList.update k JNull (Node_Raw n)\<rparr>)
         else case v of
            JStr s \<Rightarrow> Inr (n\<lparr>Node_Key := s\<rparr>)
          | _ \<Rightarrow> Inr (n\<lparr>Node_Raw := AList.update k v (Node_Raw n)\<rparr>))
      else if k = ''style'' then
        (if v = JNull then Inr (n\<lparr>Node_Raw := AList.update k JNull (Node_Raw n)\<rparr>)
         else case v of
            JStr s \<Rightarrow> Inr (n\<lparr>Node_Style := Some s\<rparr>)
          | _ \<Rightarrow> Inr (n\<lparr>Node_Raw := AList.update k v (Node_Raw n)\<rparr>))
      else if k = ''children'' then
        (if v = JNull then Inr (n\<lparr>Node_Raw := AList.update k JNull (Node_Raw n)\<rparr>)
         else case parseSpanArray v (path @ ''.children'') of
            Inl err \<Rightarrow> Inl err
          | Inr children \<Rightarrow> Inr (n\<lparr>Node_Children := Some children\<rparr>))
      else if k = ''markDefs'' then
        (if v = JNull then Inr (n\<lparr>Node_Raw := AList.update k JNull (Node_Raw n)\<rparr>)
         else case parseMarkDefArray v (path @ ''.markDefs'') of
            Inl err \<Rightarrow> Inl err
          | Inr mds \<Rightarrow> Inr (n\<lparr>Node_MarkDefs := Some mds\<rparr>))
      else if k = ''listItem'' then
        (if v = JNull then Inr (n\<lparr>Node_Raw := AList.update k JNull (Node_Raw n)\<rparr>)
         else case v of
            JStr s \<Rightarrow> Inr (n\<lparr>Node_ListItem := Some s\<rparr>)
          | _ \<Rightarrow> Inr (n\<lparr>Node_Raw := AList.update k v (Node_Raw n)\<rparr>))
      else if k = ''level'' then
        (if v = JNull then Inr (n\<lparr>Node_Raw := AList.update k JNull (Node_Raw n)\<rparr>)
         else case v of
            JNum x \<Rightarrow>
              (case Int64 x of
                 None \<Rightarrow> Inl (wrap ''node'' (path @ ''.level'') ErrInvalidNumber)
               | Some iv \<Rightarrow> Inr (n\<lparr>Node_Level := Some iv\<rparr>))
          | _ \<Rightarrow> Inr (n\<lparr>Node_Raw := AList.update k v (Node_Raw n)\<rparr>))
      else Inr (n\<lparr>Node_Raw := AList.update k v (Node_Raw n)\<rparr>))"

fun parseNode_loop :: "string \<Rightarrow> gomap \<Rightarrow> Node \<Rightarrow> Error + Node" where
  "parseNode_loop path [] n = Inr n"
| "parseNode_loop path ((k, v) # obj) n =
     (case parseNode_field path k v n of
        Inl e \<Rightarrow> Inl e
      | Inr n' \<Rightarrow> parseNode_loop path obj n')"

definition parseNode :: "json \<Rightarrow> string \<Rightarrow> Error + Node" where
  "parseNode b path =
     (case decodeObjectUseNumber b of
        Inl err \<Rightarrow> Inl (wrap ''node'' path err)
      | Inr obj \<Rightarrow>
          (case map_of obj ''_type'' of
             None \<Rightarrow> Inl (wrap ''node'' path ErrMissingType)
           | Some t \<Rightarrow>
               (case type_string t of
                  None \<Rightarrow> Inl (wrap ''node'' path ErrInvalidType)
                | Some ts \<Rightarrow>
                    parseNode_loop path obj
                      \<lparr>Node_Type = ts, Node_Key = [], Node_Style = None, Node_Children = None,
                       Node_MarkDefs = None, Node_ListItem = None, Node_Level = None,
                       Node_Raw = []\<rparr>)))"

subsection \<open>Documents\<close>

text \<open>
  The loop \<open>for dec.More()\<close> of \<open>Decode\<close>: \<open>doc\<close> is the document accumulated so far
  (declared by \<open>var doc Document\<close>, so nil until the first \<open>append\<close>), \<open>i\<close> the index
  of the next element.
\<close>

fun Decode_loop :: "nat \<Rightarrow> json list \<Rightarrow> Document \<Rightarrow> Error + Document" where
  "Decode_loop i [] doc = Inr doc"
| "Decode_loop i (rm # rest) doc =
     (case parseNode rm (''['' @ showNat i @ '']'') of
        Inl err \<Rightarrow> Inl err
      | Inr n \<Rightarrow> Decode_loop (Suc i) rest (Some (elems doc @ [n])))"

text \<open>
  \<open>Decode\<close> reads the first token, which must be the delimiter \<open>[\<close>; for any other
  top-level value the token is not that delimiter.
\<close>

fun Decode :: "json \<Rightarrow> Error + Document" where
  "Decode (JArr items) = Decode_loop 0 items None"
| "Decode _ = Inl (wrap ''decode'' [] ErrUnexpectedToken)"

section \<open>Encoder\<close>

text \<open>The loop \<open>for k, v := range raw { m[k] = v }\<close> that starts every \<open>MarshalJSON\<close>.\<close>

fun copy_into :: "gomap \<Rightarrow> gomap \<Rightarrow> gomap" where
  "copy_into [] m = m"
| "copy_into ((k, v) # raw) m = copy_into raw (AList.update k v m)"

text \<open>
  Each \<open>MarshalJSON\<close> builds the map \<open>m\<close> and returns \<open>json.Marshal(m)\<close>; the model
  returns the object that these bytes denote, with the typed values (\<open>string\<close>, \<open>int\<close>,
  \<open>[]string\<close>, \<open>[]Span\<close>, \<open>[]MarkDef\<close>) already in their JSON form.
\<close>

definition Span_MarshalJSON :: "Span \<Rightarrow> json" where
  "Span_MarshalJSON s =
     (let m = copy_into (Span_Raw s) [];
          m = AList.update ''_type'' (JStr (Span_Type s)) m;
          m = (case Span_Text s of None \<Rightarrow> m | Some t \<Rightarrow> AList.update ''text'' (JStr t) m);
          m = (case Span_Marks s of None \<Rightarrow> m
               | Some marks \<Rightarrow> AList.update ''marks'' (JArr (map JStr marks)) m)
      in JObj m)"

definition MarkDef_MarshalJSON :: "MarkDef \<Rightarrow> json" where
  "MarkDef_MarshalJSON md =
     (let m = copy_into (MarkDef_Raw md) [];
          m = AList.update ''_type'' (JStr (MarkDef_Type md)) m;
          m = (if MarkDef_Key md \<noteq> [] then AList.update ''_key'' (JStr (MarkDef_Key md)) m else m)
      in JObj m)"

definition Node_MarshalJSON :: "Node \<Rightarrow> json" where
  "Node_MarshalJSON n =
     (let m = copy_into (Node_Raw n) [];
          m = AList.update ''_type'' (JStr (Node_Type n)) m;
          m = (if Node_Key n \<noteq> [] then AList.update ''_key'' (JStr (Node_Key n)) m else m);
          m = (case Node_Style n of None \<Rightarrow> m | Some st \<Rightarrow> AList.update ''style'' (JStr st) m);
          m = (case Node_Children n of None \<Rightarrow> m
               | Some cs \<Rightarrow> AList.update ''children'' (JArr (map Span_MarshalJSON cs)) m);
          m = (case Node_MarkDefs n of None \<Rightarrow> m
               | Some mds \<Rightarrow> AList.update ''markDefs'' (JArr (map MarkDef_MarshalJSON mds)) m);
          m = (case Node_ListItem n of None \<Rightarrow> m | Some li \<Rightarrow> AList.update ''listItem'' (JStr li) m);
          m = (case Node_Level n of None \<Rightarrow> m | Some l \<Rightarrow> AList.update ''level'' (JNum (showInt l)) m)
      in JObj m)"

text \<open>
  \<open>Encode\<close> hands the document, a slice, to the library's encoder, which writes a nil
  slice as \<open>null\<close> and any other slice as an array of its elements.
\<close>

fun Encode :: "Document \<Rightarrow> json" where
  "Encode None = JNull"
| "Encode (Some ns) = JArr (map Node_MarshalJSON ns)"

section \<open>Validator\<close>

text \<open>The map \<open>markDefMap\<close>, built only when \<open>CheckMarkDefRefs\<close> is set.\<close>

fun build_markDefMap :: "MarkDef list \<Rightarrow> (string \<times> bool) list \<Rightarrow> (string \<times> bool) list" where
  "build_markDefMap [] m = m"
| "build_markDefMap (md # mds) m = build_markDefMap mds (AList.update (MarkDef_Key md) True m)"

text \<open>Reading a \<open>map[string]bool\<close> at a missing key (or in a nil map) gives \<open>false\<close>.\<close>

definition markDefMap_get :: "(string \<times> bool) list \<Rightarrow> string \<Rightarrow> bool" where
  "markDefMap_get m k = (case map_of m k of None \<Rightarrow> False | Some b \<Rightarrow> b)"

text \<open>
  Each loop returns the diagnostics it appends to \<open>errs\<close>, in the order of the appends.
  The field \<open>Node\<close> of a diagnostic points to the top-level node; the model stores that
  node.
\<close>

fun validate_marks :: "(string \<times> bool) list \<Rightarrow> string \<Rightarrow> Node \<Rightarrow> string list \<Rightarrow> ValidationError list" where
  "validate_marks markDefMap cpath n [] = []"
| "validate_marks markDefMap cpath n (mark # marks) =
     (if \<not> markDefMap_get markDefMap mark
      then [\<lparr>VE_Path = cpath, VE_Message = ''mark '' @ [CHR 0x27] @ mark @ [CHR 0x27] @ '' not found in markDefs'',
             VE_Node = n\<rparr>]
      else [])
     @ validate_marks markDefMap cpath n marks"

text \<open>The body of the loop over \<open>n.Children\<close>, for the child \<open>c\<close> at index \<open>j\<close>.\<close>

definition validate_child :: "ValidationOptions \<Rightarrow> (string \<times> bool) list \<Rightarrow> string \<Rightarrow> Node \<Rightarrow> nat \<Rightarrow> Span \<Rightarrow> ValidationError list" where
  "validate_child opts markDefMap path n j c =
     (let cpath = path @ ''.children['' @ showNat j @ '']''
      in if Span_Type c = [] then [\<lparr>VE_Path = cpath, VE_Message = ''missing _type'', VE_Node = n\<rparr>]
         else if Span_Type c = ''span'' then
           (if Span_Text c = None
            then [\<lparr>VE_Path = cpath, VE_Message = ''span missing text'', VE_Node = n\<rparr>]
            else if \<not> AllowEmptyText opts \<and> the (Span_Text c) = []
            then [\<lparr>VE_Path = cpath, VE_Message = ''span has empty text'', VE_Node = n\<rparr>]
            else [])
           @ (if CheckMarkDefRefs opts
              then validate_marks markDefMap cpath n (elems (Span_Marks c))
              else [])
         else [])"

fun validate_children :: "ValidationOptions \<Rightarrow> (string \<times> bool) list \<Rightarrow> string \<Rightarrow> Node \<Rightarrow> nat \<Rightarrow> Span list \<Rightarrow> ValidationError list" where
  "validate_children opts markDefMap path n j [] = []"
| "validate_children opts markDefMap path n j (c # cs) =
     validate_child opts markDefMap path n j c
     @ validate_children opts markDefMap path n (Suc j) cs"

definition validate_markDef :: "string \<Rightarrow> Node \<Rightarrow> nat \<Rightarrow> MarkDef \<Rightarrow> ValidationError list" where
  "validate_markDef path n j md =
     (let mdpath = path @ ''.markDefs['' @ showNat j @ '']''
      in (if MarkDef_Type md = []
          then [\<lparr>VE_Path = mdpath, VE_Message = ''markDef missing _type'', VE_Node = n\<rparr>]
          else [])
         @ (if MarkDef_Key md = []
            then [\<lparr>VE_Path = mdpath, VE_Message = ''markDef missing _key'', VE_Node = n\<rparr>]
            else []))"

fun validate_markDefs :: "string \<Rightarrow> Node \<Rightarrow> nat \<Rightarrow> MarkDef list \<Rightarrow> ValidationError list" where
  "validate_markDefs path n j [] = []"
| "validate_markDefs path n j (md # mds) =
     validate_markDef path n j md @ validate_markDefs path n (Suc j) mds"

text \<open>The body of the outer loop, for the node \<open>n\<close> at index \<open>i\<close>.\<close>

definition validate_node :: "ValidationOptions \<Rightarrow> nat \<Rightarrow> Node \<Rightarrow> ValidationError list" where
  "validate_node opts i n =
     (let path = ''['' @ showNat i @ '']''
      in if Node_Type n = [] then [\<lparr>VE_Path = path, VE_Message = ''missing _type'', VE_Node = n\<rparr>]
         else
           (if RequireKeys opts \<and> Node_Key n = []
            then [\<lparr>VE_Path = path, VE_Message = ''missing _key'', VE_Node = n\<rparr>]
            else [])
           @ (if Node_Type n = ''block'' then
                (let markDefMap =
                       (if CheckMarkDefRefs opts then build_markDefMap (elems (Node_MarkDefs n)) []
                        else [])
                 in validate_children opts markDefMap path n 0 (elems (Node_Children n))
                    @ validate_markDefs path n 0 (elems (Node_MarkDefs n)))
              else []))"

fun validate_nodes :: "ValidationOptions \<Rightarrow> nat \<Rightarrow> Node list \<Rightarrow> ValidationError list" where
  "validate_nodes opts i [] = []"
| "validate_nodes opts i (n # ns) = validate_node opts i n @ validate_nodes opts (Suc i) ns"

definition ValidateWithOptions :: "Document \<Rightarrow> ValidationOptions \<Rightarrow> ValidationError list" where
  "ValidateWithOptions doc opts = validate_nodes opts 0 (elems doc)"

text \<open>\<open>ValidationOptions{}\<close>, the zero value: every flag is \<open>false\<close>.\<close>

definition zero_ValidationOptions :: ValidationOptions where
  "zero_ValidationOptions = \<lparr>RequireKeys = False, CheckMarkDefRefs = False, AllowEmptyText = False\<rparr>"

definition Validate :: "Document \<Rightarrow> ValidationError list" where
  "Validate doc = ValidateWithOptions doc zero_ValidationOptions"

section \<open>Traversal\<close>

text \<open>
  \<open>Walk\<close> calls \<open>fn\<close> with a pointer into the document, and \<open>fn\<close> is a closure: it may
  change the node it is given and its own variables. The callback of the model takes
  the node and the state of the closure and returns the error (\<open>None\<close> for \<open>nil\<close>), the
  node as it leaves it and the new state; \<open>Walk\<close> returns the error, the nodes as the
  callbacks left them and the final state.
\<close>

fun Walk_loop :: "Node list \<Rightarrow> (Node \<Rightarrow> 's \<Rightarrow> 'e option \<times> Node \<times> 's) \<Rightarrow> 's \<Rightarrow> 'e option \<times> Node list \<times> 's" where
  "Walk_loop [] fn s = (None, [], s)"
| "Walk_loop (n # ns) fn s =
     (case fn n s of
        (Some err, n', s') \<Rightarrow> (Some err, n' # ns, s')
      | (None, n', s') \<Rightarrow>
          (case Walk_loop ns fn s' of (r, ns', s'') \<Rightarrow> (r, n' # ns', s'')))"

definition Walk :: "Document \<Rightarrow> (Node \<Rightarrow> 's \<Rightarrow> 'e option \<times> Node \<times> 's) \<Rightarrow> 's \<Rightarrow> 'e option \<times> Node list \<times> 's" where
  "Walk doc fn s = Walk_loop (elems doc) fn s"

text \<open>
  A callback that counts its invocations in its closure, as the tests of the package
  do, around any callback \<open>fn\<close>.
\<close>

definition counting :: "(Node \<Rightarrow> 's \<Rightarrow> 'e option \<times> Node \<times> 's) \<Rightarrow> Node \<Rightarrow> 's \<times> nat \<Rightarrow> 'e option \<times> Node \<times> ('s \<times> nat)" where
  "counting fn n sc = (case fn n (fst sc) of (r, n', s') \<Rightarrow> (r, n', (s', Suc (snd sc))))"

section \<open>Clone and Filter\<close>

text \<open>
  \<open>deepCopyAny\<close> on the values of the raw store. The branches for \<open>json.RawMessage\<close> and
  \<open>[]byte\<close> are not reached by these values.
\<close>

fun deepCopyAny :: "json \<Rightarrow> json"
  and deepCopyMap_loop :: "gomap \<Rightarrow> gomap \<Rightarrow> gomap"
  and deepCopy_slice :: "json list \<Rightarrow> json list" where
  "deepCopyAny (JObj x) = JObj (deepCopyMap_loop x [])"
| "deepCopyAny (JArr x) = JArr (deepCopy_slice x)"
| "deepCopyAny x = x"
| "deepCopyMap_loop [] out = out"
| "deepCopyMap_loop ((k, v) # m) out = deepCopyMap_loop m (AList.update k (deepCopyAny v) out)"
| "deepCopy_slice [] = []"
| "deepCopy_slice (v # x) = deepCopyAny v # deepCopy_slice x"

text \<open>A nil map and the empty map are both the empty association list.\<close>

definition deepCopyMap :: "gomap \<Rightarrow> gomap" where
  "deepCopyMap m = deepCopyMap_loop m []"

text \<open>
  \<open>append([]string(nil), xs...)\<close>: appending no element to the nil slice returns the
  nil slice; appending at least one allocates.
\<close>

definition append_nil :: "'a list \<Rightarrow> 'a list option" where
  "append_nil xs = (if xs = [] then None else Some xs)"

text \<open>The body of the loop of \<open>cloneSpans\<close>.\<close>

definition cloneSpan :: "Span \<Rightarrow> Span" where
  "cloneSpan c =
     (let out = c;
          out = (case Span_Text c of None \<Rightarrow> out | Some t \<Rightarrow> out\<lparr>Span_Text := Some t\<rparr>);
          out = (case Span_Marks c of None \<Rightarrow> out
                 | Some marks \<Rightarrow> out\<lparr>Span_Marks := append_nil marks\<rparr>)
      in out\<lparr>Span_Raw := deepCopyMap (Span_Raw c)\<rparr>)"

fun cloneSpans :: "Span list option \<Rightarrow> Span list option" where
  "cloneSpans None = None"
| "cloneSpans (Some xs) = Some (map cloneSpan xs)"

fun cloneMarkDefs :: "MarkDef list option \<Rightarrow> MarkDef list option" where
  "cloneMarkDefs None = None"
| "cloneMarkDefs (Some xs) = Some (map (\<lambda>md. md\<lparr>MarkDef_Raw := deepCopyMap (MarkDef_Raw md)\<rparr>) xs)"

text \<open>\<open>Clone\<close> of a node that is not nil (the only use \<open>Filter\<close> makes of it).\<close>

definition Clone :: "Node \<Rightarrow> Node" where
  "Clone n =
     (let out = n;
          out = (case Node_Style n of None \<Rightarrow> out | Some s \<Rightarrow> out\<lparr>Node_Style := Some s\<rparr>);
          out = (case Node_ListItem n of None \<Rightarrow> out | Some s \<Rightarrow> out\<lparr>Node_ListItem := Some s\<rparr>);
          out = (case Node_Level n of None \<Rightarrow> out | Some l \<Rightarrow> out\<lparr>Node_Level := Some l\<rparr>)
      in out\<lparr>Node_Children := cloneSpans (Node_Children n),
             Node_MarkDefs := cloneMarkDefs (Node_MarkDefs n),
             Node_Raw := deepCopyMap (Node_Raw n)\<rparr>)"

text \<open>
  The loop of \<open>Filter\<close>; \<open>result\<close> starts as \<open>make(Document, 0)\<close>, which is not nil.
\<close>

fun Filter_loop :: "Node list \<Rightarrow> (Node \<Rightarrow> bool) \<Rightarrow> Node list \<Rightarrow> Node list" where
  "Filter_loop [] pred result = result"
| "Filter_loop (n # ns) pred result =
     (if pred n then Filter_loop ns pred (result @ [Clone n]) else Filter_loop ns pred result)"

definition Filter :: "Document \<Rightarrow> (Node \<Rightarrow> bool) \<Rightarrow> Document" where
  "Filter doc pred = Some (Filter_loop (elems doc) pred [])"

section \<open>Builders\<close>

definition NewBlock :: "string \<Rightarrow> Node" where
  "NewBlock style =
     \<lparr>Node_Type = ''block'', Node_Key = [], Node_Style = Some style, Node_Children = Some [],
      Node_MarkDefs = Some [], Node_ListItem = None, Node_Level = None, Node_Raw = []\<rparr>"

definition NewNode :: "string \<Rightarrow> Node" where
  "NewNode nodeType =
     \<lparr>Node_Type = nodeType, Node_Key = [], Node_Style = None, Node_Children = None,
      Node_MarkDefs = None, Node_ListItem = None, Node_Level = None, Node_Raw = []\<rparr>"

text \<open>
  \<open>AddSpan\<close> is variadic in \<open>marks\<close>: called with no mark the parameter is the nil
  slice, otherwise the slice of the marks given.
\<close>

definition AddSpan :: "Node \<Rightarrow> string \<Rightarrow> string list \<Rightarrow> Node" where
  "AddSpan n text marks =
     n\<lparr>Node_Children := Some (elems (Node_Children n) @
        [\<lparr>Span_Type = ''span'', Span_Text = Some text,
          Span_Marks = (if marks = [] then None else Some marks), Span_Raw = []\<rparr>])\<rparr>"

definition AddMarkDef :: "Node \<Rightarrow> string \<Rightarrow> string \<Rightarrow> gomap \<Rightarrow> Node" where
  "AddMarkDef n key markType raw =
     n\<lparr>Node_MarkDefs := Some (elems (Node_MarkDefs n) @
        [\<lparr>MarkDef_Key = key, MarkDef_Type = markType, MarkDef_Raw = raw\<rparr>])\<rparr>"

section \<open>The part of an entity that belongs to a field name\<close>

text \<open>
  For a field name \<open>k\<close>, the raw entry of that name together with the typed slot of
  that name (every other slot blanked). The iterations of a parsing loop for other
  names leave this part alone.
\<close>

definition Node_slot :: "string \<Rightarrow> Node \<Rightarrow> json option \<times> Node" where
  "Node_slot k n =
     (map_of (Node_Raw n) k,
      \<lparr>Node_Type = [],
       Node_Key = (if k = ''_key'' then Node_Key n else []),
       Node_Style = (if k = ''style'' then Node_Style n else None),
       Node_Children = (if k = ''children'' then Node_Children n else None),
       Node_MarkDefs = (if k = ''markDefs'' then Node_MarkDefs n else None),
       Node_ListItem = (if k = ''listItem'' then Node_ListItem n else None),
       Node_Level = (if k = ''level'' then Node_Level n else None),
       Node_Raw = []\<rparr>)"


section \<open>Values and entities as the decoder produces them\<close>

text \<open>
  A Go map has every key once. \<open>distinct_keys\<close> says so of every object of a JSON
  value, at any depth.
\<close>

fun distinct_keys :: "json \<Rightarrow> bool"
  and distinct_keys_map :: "gomap \<Rightarrow> bool"
  and distinct_keys_slice :: "json list \<Rightarrow> bool" where
  "distinct_keys (JObj x) = (distinct (map fst x) \<and> distinct_keys_map x)"
| "distinct_keys (JArr x) = distinct_keys_slice x"
| "distinct_keys x = True"
| "distinct_keys_map [] = True"
| "distinct_keys_map ((k, v) # m) = (distinct_keys v \<and> distinct_keys_map m)"
| "distinct_keys_slice [] = True"
| "distinct_keys_slice (v # x) = (distinct_keys v \<and> distinct_keys_slice x)"

text \<open>
  What holds of every entity that the decoder returns: the discriminator is not empty,
  the raw store has every key once and no discriminator, and a field name is in the
  raw store only with a value that the decoder routes there, its typed slot then being
  unset. A mark definition's raw \<open>_key\<close>, written before the loop, is the first entry.
\<close>

definition Span_inv :: "Span \<Rightarrow> bool" where
  "Span_inv s =
     (Span_Type s \<noteq> [] \<and> distinct (map fst (Span_Raw s))
      \<and> map_of (Span_Raw s) ''_type'' = None
      \<and> (\<forall>v. map_of (Span_Raw s) ''text'' = Some v \<longrightarrow>
            Span_Text s = None \<and> (\<forall>x. v \<noteq> JStr x))
      \<and> (\<forall>v. map_of (Span_Raw s) ''marks'' = Some v \<longrightarrow> Span_Marks s = None \<and> v = JNull))"

definition MarkDef_inv :: "MarkDef \<Rightarrow> bool" where
  "MarkDef_inv md =
     (MarkDef_Type md \<noteq> [] \<and> distinct (map fst (MarkDef_Raw md))
      \<and> map_of (MarkDef_Raw md) ''_type'' = None
      \<and> (\<forall>v. map_of (MarkDef_Raw md) ''_key'' = Some v \<longrightarrow>
            MarkDef_Key md = [] \<and> (\<forall>x. v \<noteq> JStr x)
            \<and> (\<exists>rest. MarkDef_Raw md = (''_key'', v) # rest)))"

definition Node_inv :: "Node \<Rightarrow> bool" where
  "Node_inv n =
     (Node_Type n \<noteq> [] \<and> distinct (map fst (Node_Raw n))
      \<and> map_of (Node_Raw n) ''_type'' = None
      \<and> (\<forall>v. map_of (Node_Raw n) ''_key'' = Some v \<longrightarrow>
            Node_Key n = [] \<and> (\<forall>x. v \<noteq> JStr x))
      \<and> (\<forall>v. map_of (Node_Raw n) ''style'' = Some v \<longrightarrow>
            Node_Style n = None \<and> (\<forall>x. v \<noteq> JStr x))
      \<and> (\<forall>v. map_of (Node_Raw n) ''listItem'' = Some v \<longrightarrow>
            Node_ListItem n = None \<and> (\<forall>x. v \<noteq> JStr x))
      \<and> (\<forall>v. map_of (Node_Raw n) ''level'' = Some v \<longrightarrow>
            Node_Level n = None \<and> (\<forall>x. v \<noteq> JNum x))
      \<and> (\<forall>l. Node_Level n = Some l \<longrightarrow> - (2 ^ 63) \<le> l \<and> l < 2 ^ 63)
      \<and> (\<forall>v. map_of (Node_Raw n) ''children'' = Some v \<longrightarrow>
            Node_Children n = None \<and> v = JNull)
      \<and> (\<forall>v. map_of (Node_Raw n) ''markDefs'' = Some v \<longrightarrow>
            Node_MarkDefs n = None \<and> v = JNull)
      \<and> (\<forall>c \<in> set (elems (Node_Children n)). Span_inv c)
      \<and> (\<forall>md \<in> set (elems (Node_MarkDefs n)). MarkDef_inv md))"

section \<open>Properties of the validator\<close>

lemma showNat_0: "showNat 0 = ''0''"
  by (simp add: showNat.simps digit_char_def)

lemma showNat_1: "showNat (Suc 0) = ''1''"
  by (simp add: showNat.simps digit_char_def)

lemma validate_nodes_concat:
  "validate_nodes opts i ns = concat (map (\<lambda>(k, n). validate_node opts k n) (enumerate i ns))"
  by (induction ns arbitrary: i) simp_all

text \<open>
  C9: for every document, \<open>Validate\<close> returns the same sequence of diagnostics as
  \<open>ValidateWithOptions\<close> called with the zero value of the options, all three flags
  false.
\<close>

theorem Validate_is_ValidateWithOptions_zero:
  "Validate doc =
     ValidateWithOptions doc \<lparr>RequireKeys = False, CheckMarkDefRefs = False, AllowEmptyText = False\<rparr>"
  by (simp add: Validate_def zero_ValidationOptions_def)

text \<open>
  C6: a document of one block with empty \<open>markDefs\<close> whose only span has a text that is
  present and not empty and the marks \<open>["link1"]\<close>, validated with \<open>CheckMarkDefRefs\<close>
  set, yields exactly one diagnostic, which names the mark \<open>link1\<close>; with the mark
  definition of key \<open>link1\<close> and type \<open>link\<close> in \<open>markDefs\<close> it yields none. The other
  fields of the node, the span and the mark definition are arbitrary.
\<close>

theorem mark_reference_check:
  "ValidateWithOptions
       (Some [\<lparr>Node_Type = ''block'', Node_Key = key, Node_Style = st,
               Node_Children = Some [\<lparr>Span_Type = ''span'', Span_Text = Some (t0 # t),
                                      Span_Marks = Some [''link1''], Span_Raw = sraw\<rparr>],
               Node_MarkDefs = Some [], Node_ListItem = li, Node_Level = lv, Node_Raw = raw\<rparr>])
       \<lparr>RequireKeys = False, CheckMarkDefRefs = True, AllowEmptyText = aet\<rparr>
     = [\<lparr>VE_Path = ''[0].children[0]'',
         VE_Message = ''mark '' @ [CHR 0x27] @ ''link1'' @ [CHR 0x27] @ '' not found in markDefs'',
         VE_Node = \<lparr>Node_Type = ''block'', Node_Key = key, Node_Style = st,
               Node_Children = Some [\<lparr>Span_Type = ''span'', Span_Text = Some (t0 # t),
                                      Span_Marks = Some [''link1''], Span_Raw = sraw\<rparr>],
               Node_MarkDefs = Some [], Node_ListItem = li, Node_Level = lv, Node_Raw = raw\<rparr>\<rparr>]
   \<and> ValidateWithOptions
       (Some [\<lparr>Node_Type = ''block'', Node_Key = key, Node_Style = st,
               Node_Children = Some [\<lparr>Span_Type = ''span'', Span_Text = Some (t0 # t),
                                      Span_Marks = Some [''link1''], Span_Raw = sraw\<rparr>],
               Node_MarkDefs = Some [\<lparr>MarkDef_Key = ''link1'', MarkDef_Type = ''link'',
                                      MarkDef_Raw = mraw\<rparr>],
               Node_ListItem = li, Node_Level = lv, Node_Raw = raw\<rparr>])
       \<lparr>RequireKeys = False, CheckMarkDefRefs = True, AllowEmptyText = aet\<rparr>
     = []"
  by (simp add: ValidateWithOptions_def validate_node_def validate_child_def validate_markDef_def
       markDefMap_get_def showNat_0)

lemma validate_nodes_nth:
  "i < length ns \<Longrightarrow> set (validate_node opts (k + i) (ns ! i)) \<subseteq> set (validate_nodes opts k ns)"
proof (induction ns arbitrary: i k)
  case Nil
  then show ?case by simp
next
  case (Cons n ns)
  show ?case
  proof (cases i)
    case 0
    then show ?thesis by simp
  next
    case (Suc i')
    with Cons.prems have "i' < length ns" by simp
    from Cons.IH [OF this, of "Suc k"] Suc show ?thesis by auto
  qed
qed

lemma validate_children_nth:
  "j < length cs \<Longrightarrow>
     set (validate_child opts m path n (k + j) (cs ! j)) \<subseteq> set (validate_children opts m path n k cs)"
proof (induction cs arbitrary: j k)
  case Nil
  then show ?case by simp
next
  case (Cons c cs)
  show ?case
  proof (cases j)
    case 0
    then show ?thesis by simp
  next
    case (Suc j')
    with Cons.prems have "j' < length cs" by simp
    from Cons.IH [OF this, of "Suc k"] Suc show ?thesis by auto
  qed
qed

lemma validate_child_empty_text:
  "Span_Type c = ''span'' \<Longrightarrow> Span_Text c = Some [] \<Longrightarrow> \<not> AllowEmptyText opts \<Longrightarrow>
     \<lparr>VE_Path = path @ ''.children['' @ showNat j @ '']'', VE_Message = ''span has empty text'',
      VE_Node = n\<rparr> \<in> set (validate_child opts m path n j c)"
  by (simp add: validate_child_def Let_def)

lemma validate_node_empty_text:
  assumes "\<not> AllowEmptyText opts" "Node_Type n = ''block''"
    "j < length (elems (Node_Children n))"
    "Span_Type (elems (Node_Children n) ! j) = ''span''"
    "Span_Text (elems (Node_Children n) ! j) = Some []"
  shows "\<lparr>VE_Path = ''['' @ showNat i @ ''].children['' @ showNat j @ '']'',
          VE_Message = ''span has empty text'', VE_Node = n\<rparr> \<in> set (validate_node opts i n)"
proof -
  let ?m = "if CheckMarkDefRefs opts then build_markDefMap (elems (Node_MarkDefs n)) [] else []"
  have "\<lparr>VE_Path = (''['' @ showNat i @ '']'') @ ''.children['' @ showNat j @ '']'',
          VE_Message = ''span has empty text'', VE_Node = n\<rparr>
        \<in> set (validate_child opts ?m (''['' @ showNat i @ '']'') n (0 + j) (elems (Node_Children n) ! j))"
    using validate_child_empty_text [OF assms(4) assms(5) assms(1), of "''['' @ showNat i @ '']''" j n ?m]
    by simp
  then have "\<lparr>VE_Path = (''['' @ showNat i @ '']'') @ ''.children['' @ showNat j @ '']'',
          VE_Message = ''span has empty text'', VE_Node = n\<rparr>
        \<in> set (validate_children opts ?m (''['' @ showNat i @ '']'') n 0 (elems (Node_Children n)))"
    using validate_children_nth [OF assms(3), of opts ?m "''['' @ showNat i @ '']''" n 0] by blast
  then show ?thesis using assms(2) by (simp add: validate_node_def Let_def)
qed

lemma validate_marks_msg:
  "e \<in> set (validate_marks m cpath n marks) \<Longrightarrow> take 5 (VE_Message e) = ''mark ''"
  by (induction marks) (auto split: if_splits)

lemma validate_child_msg:
  "e \<in> set (validate_child opts m path n j c) \<Longrightarrow>
     VE_Message e = ''missing _type'' \<or> VE_Message e = ''span missing text''
     \<or> (VE_Message e = ''span has empty text'' \<and> \<not> AllowEmptyText opts)
     \<or> (take 5 (VE_Message e) = ''mark '' \<and> CheckMarkDefRefs opts)"
  by (auto simp: validate_child_def Let_def split: if_splits dest: validate_marks_msg)

lemma validate_children_msg:
  "e \<in> set (validate_children opts m path n j cs) \<Longrightarrow>
     VE_Message e = ''missing _type'' \<or> VE_Message e = ''span missing text''
     \<or> (VE_Message e = ''span has empty text'' \<and> \<not> AllowEmptyText opts)
     \<or> (take 5 (VE_Message e) = ''mark '' \<and> CheckMarkDefRefs opts)"
proof (induction cs arbitrary: j)
  case Nil
  then show ?case by simp
next
  case (Cons c cs)
  from Cons.prems have "e \<in> set (validate_child opts m path n j c)
      \<or> e \<in> set (validate_children opts m path n (Suc j) cs)" by simp
  then show ?case using validate_child_msg Cons.IH by blast
qed

lemma validate_markDefs_msg:
  "e \<in> set (validate_markDefs path n j mds) \<Longrightarrow>
     VE_Message e = ''markDef missing _type'' \<or> VE_Message e = ''markDef missing _key''"
  by (induction mds arbitrary: j) (auto simp: validate_markDef_def Let_def split: if_splits)

lemma validate_node_msg:
  assumes "e \<in> set (validate_node opts i n)"
  shows "VE_Message e = ''missing _type'' \<or> VE_Message e = ''span missing text''
     \<or> VE_Message e = ''markDef missing _type'' \<or> VE_Message e = ''markDef missing _key''
     \<or> (VE_Message e = ''missing _key'' \<and> RequireKeys opts)
     \<or> (VE_Message e = ''span has empty text'' \<and> \<not> AllowEmptyText opts)
     \<or> (take 5 (VE_Message e) = ''mark '' \<and> CheckMarkDefRefs opts)"
proof (cases "Node_Type n = []")
  case True
  with assms show ?thesis by (simp add: validate_node_def)
next
  case False
  let ?path = "''['' @ showNat i @ '']''"
  let ?m = "if CheckMarkDefRefs opts then build_markDefMap (elems (Node_MarkDefs n)) [] else []"
  from assms False have
    "(e = \<lparr>VE_Path = ?path, VE_Message = ''missing _key'', VE_Node = n\<rparr> \<and> RequireKeys opts)
     \<or> e \<in> set (validate_children opts ?m ?path n 0 (elems (Node_Children n)))
     \<or> e \<in> set (validate_markDefs ?path n 0 (elems (Node_MarkDefs n)))"
    by (auto simp: validate_node_def Let_def split: if_splits)
  then show ?thesis using validate_children_msg validate_markDefs_msg by fastforce
qed

lemma validate_nodes_msg:
  "e \<in> set (validate_nodes opts i ns) \<Longrightarrow> \<exists>k n. e \<in> set (validate_node opts k n)"
  by (induction ns arbitrary: i) auto

text \<open>
  C4, as the code has it: \<open>RequireKeys\<close> and \<open>CheckMarkDefRefs\<close> are off in the zero
  value of the options, but so is \<open>AllowEmptyText\<close>, whose \<open>false\<close> is the strict
  setting. Under every option set with \<open>AllowEmptyText\<close> false, the default one
  included, a child of a block with discriminator \<open>span\<close> and a text that is present
  and empty is reported with the message \<open>span has empty text\<close> at its path; with
  \<open>AllowEmptyText\<close> true no diagnostic has this message. With the default options the
  only messages are those of the unconditional checks and this one.
\<close>

theorem empty_text_flagged_unless_allowed:
  "(\<not> AllowEmptyText opts \<longrightarrow> i < length (elems doc) \<longrightarrow>
      Node_Type (elems doc ! i) = ''block'' \<longrightarrow>
      j < length (elems (Node_Children (elems doc ! i))) \<longrightarrow>
      Span_Type (elems (Node_Children (elems doc ! i)) ! j) = ''span'' \<longrightarrow>
      Span_Text (elems (Node_Children (elems doc ! i)) ! j) = Some [] \<longrightarrow>
        \<lparr>VE_Path = ''['' @ showNat i @ ''].children['' @ showNat j @ '']'',
         VE_Message = ''span has empty text'', VE_Node = elems doc ! i\<rparr>
          \<in> set (ValidateWithOptions doc opts))
   \<and> (AllowEmptyText opts \<longrightarrow>
        (\<forall>e \<in> set (ValidateWithOptions doc opts). VE_Message e \<noteq> ''span has empty text''))
   \<and> \<not> AllowEmptyText zero_ValidationOptions
   \<and> \<not> RequireKeys zero_ValidationOptions
   \<and> \<not> CheckMarkDefRefs zero_ValidationOptions
   \<and> (\<forall>e \<in> set (Validate doc).
        VE_Message e \<in> {''missing _type'', ''span missing text'', ''span has empty text'',
                         ''markDef missing _type'', ''markDef missing _key''})"
proof (intro conjI impI ballI)
  assume h: "\<not> AllowEmptyText opts" "i < length (elems doc)"
    "Node_Type (elems doc ! i) = ''block''"
    "j < length (elems (Node_Children (elems doc ! i)))"
    "Span_Type (elems (Node_Children (elems doc ! i)) ! j) = ''span''"
    "Span_Text (elems (Node_Children (elems doc ! i)) ! j) = Some []"
  have "\<lparr>VE_Path = ''['' @ showNat i @ ''].children['' @ showNat j @ '']'',
         VE_Message = ''span has empty text'', VE_Node = elems doc ! i\<rparr>
          \<in> set (validate_node opts (0 + i) (elems doc ! i))"
    using validate_node_empty_text [OF h(1) h(3) h(4) h(5) h(6), of i] by simp
  then show "\<lparr>VE_Path = ''['' @ showNat i @ ''].children['' @ showNat j @ '']'',
         VE_Message = ''span has empty text'', VE_Node = elems doc ! i\<rparr>
          \<in> set (ValidateWithOptions doc opts)"
    unfolding ValidateWithOptions_def using validate_nodes_nth [OF h(2), of opts 0] by blast
next
  fix e
  assume a: "AllowEmptyText opts" and e: "e \<in> set (ValidateWithOptions doc opts)"
  from e obtain k n where "e \<in> set (validate_node opts k n)"
    unfolding ValidateWithOptions_def using validate_nodes_msg by blast
  from validate_node_msg [OF this] a show "VE_Message e \<noteq> ''span has empty text''"
    by auto
next
  show "\<not> AllowEmptyText zero_ValidationOptions" "\<not> RequireKeys zero_ValidationOptions"
    "\<not> CheckMarkDefRefs zero_ValidationOptions"
    by (simp_all add: zero_ValidationOptions_def)
next
  fix e
  assume "e \<in> set (Validate doc)"
  then obtain k n where "e \<in> set (validate_node zero_ValidationOptions k n)"
    unfolding Validate_def ValidateWithOptions_def using validate_nodes_msg by blast
  from validate_node_msg [OF this]
  show "VE_Message e \<in> {''missing _type'', ''span missing text'', ''span has empty text'',
                         ''markDef missing _type'', ''markDef missing _key''}"
    by (auto simp: zero_ValidationOptions_def)
qed

theorem empty_text_flagged_unless_allowed_witness:
  "\<lparr>VE_Path = ''[0].children[0]'', VE_Message = ''span has empty text'',
    VE_Node = AddSpan (NewBlock ''normal'') [] []\<rparr>
     \<in> set (ValidateWithOptions (Some [AddSpan (NewBlock ''normal'') [] []]) zero_ValidationOptions)
   \<and> ValidateWithOptions (Some [AddSpan (NewBlock ''normal'') [] []])
        \<lparr>RequireKeys = False, CheckMarkDefRefs = False, AllowEmptyText = True\<rparr> = []"
  using empty_text_flagged_unless_allowed
    [of zero_ValidationOptions 0 "Some [AddSpan (NewBlock ''normal'') [] []]" 0]
  by (simp add: zero_ValidationOptions_def AddSpan_def NewBlock_def showNat_0
      ValidateWithOptions_def validate_node_def validate_child_def)

text \<open>
  The claim C4 as the specification states it fails: with the default options, a block
  whose span child has a text that is present and empty yields a diagnostic for that
  span.
\<close>

theorem default_options_flag_empty_text:
  "Validate (Some [AddSpan (NewBlock ''normal'') [] []])
     = [\<lparr>VE_Path = ''[0].children[0]'', VE_Message = ''span has empty text'',
         VE_Node = AddSpan (NewBlock ''normal'') [] []\<rparr>]"
  by (simp add: Validate_def zero_ValidationOptions_def AddSpan_def NewBlock_def showNat_0
      ValidateWithOptions_def validate_node_def validate_child_def)

lemma validate_children_concat:
  "validate_children opts m path n j cs
     = concat (map (\<lambda>(i, c). validate_child opts m path n i c) (enumerate j cs))"
  by (induction cs arbitrary: j) simp_all

lemma validate_markDefs_concat:
  "validate_markDefs path n j mds
     = concat (map (\<lambda>(i, md). validate_markDef path n i md) (enumerate j mds))"
  by (induction mds arbitrary: j) simp_all

lemma validate_marks_filter:
  "validate_marks m cpath n marks
     = map (\<lambda>mark. \<lparr>VE_Path = cpath,
                      VE_Message = ''mark '' @ [CHR 0x27] @ mark @ [CHR 0x27] @ '' not found in markDefs'',
                      VE_Node = n\<rparr>)
         (filter (\<lambda>mark. \<not> markDefMap_get m mark) marks)"
  by (induction marks) simp_all

lemma validate_markDefs_nth:
  "j < length mds \<Longrightarrow>
     set (validate_markDef path n (k + j) (mds ! j)) \<subseteq> set (validate_markDefs path n k mds)"
proof (induction mds arbitrary: j k)
  case Nil
  then show ?case by simp
next
  case (Cons md mds)
  show ?case
  proof (cases j)
    case 0
    then show ?thesis by simp
  next
    case (Suc j')
    with Cons.prems have "j' < length mds" by simp
    from Cons.IH [OF this, of "Suc k"] Suc show ?thesis by auto
  qed
qed

lemma markDefMap_get_update:
  "markDefMap_get (AList.update k True m) k' = (k' = k \<or> markDefMap_get m k')"
  by (simp add: markDefMap_get_def update_conv')

lemma markDefMap_get_Nil: "markDefMap_get [] k = False"
  by (simp add: markDefMap_get_def)

lemma markDefMap_get_build:
  "markDefMap_get (build_markDefMap mds m) k = (k \<in> MarkDef_Key ` set mds \<or> markDefMap_get m k)"
proof (induction mds arbitrary: m)
  case Nil
  show ?case by simp
next
  case (Cons md mds)
  show ?case by (simp add: Cons.IH markDefMap_get_update) blast
qed

lemma validate_child_missing_type:
  "Span_Type c = [] \<Longrightarrow>
     \<lparr>VE_Path = path @ ''.children['' @ showNat j @ '']'', VE_Message = ''missing _type'',
      VE_Node = n\<rparr> \<in> set (validate_child opts m path n j c)"
  by (simp add: validate_child_def Let_def)

lemma validate_child_missing_text:
  "Span_Type c = ''span'' \<Longrightarrow> Span_Text c = None \<Longrightarrow>
     \<lparr>VE_Path = path @ ''.children['' @ showNat j @ '']'', VE_Message = ''span missing text'',
      VE_Node = n\<rparr> \<in> set (validate_child opts m path n j c)"
  by (simp add: validate_child_def Let_def)

lemma validate_child_mark:
  "Span_Type c = ''span'' \<Longrightarrow> CheckMarkDefRefs opts \<Longrightarrow> mark \<in> set (elems (Span_Marks c)) \<Longrightarrow>
     \<not> markDefMap_get m mark \<Longrightarrow>
     \<lparr>VE_Path = path @ ''.children['' @ showNat j @ '']'',
      VE_Message = ''mark '' @ [CHR 0x27] @ mark @ [CHR 0x27] @ '' not found in markDefs'',
      VE_Node = n\<rparr> \<in> set (validate_child opts m path n j c)"
  by (simp add: validate_child_def Let_def validate_marks_filter)

lemma validate_markDef_missing_type:
  "MarkDef_Type md = [] \<Longrightarrow>
     \<lparr>VE_Path = path @ ''.markDefs['' @ showNat j @ '']'', VE_Message = ''markDef missing _type'',
      VE_Node = n\<rparr> \<in> set (validate_markDef path n j md)"
  by (simp add: validate_markDef_def Let_def)

lemma validate_markDef_missing_key:
  "MarkDef_Key md = [] \<Longrightarrow>
     \<lparr>VE_Path = path @ ''.markDefs['' @ showNat j @ '']'', VE_Message = ''markDef missing _key'',
      VE_Node = n\<rparr> \<in> set (validate_markDef path n j md)"
  by (simp add: validate_markDef_def Let_def)

lemma validate_node_block:
  "Node_Type n = ''block'' \<Longrightarrow>
     validate_node opts i n =
       (if RequireKeys opts \<and> Node_Key n = []
        then [\<lparr>VE_Path = ''['' @ showNat i @ '']'', VE_Message = ''missing _key'', VE_Node = n\<rparr>]
        else [])
       @ validate_children opts
           (if CheckMarkDefRefs opts then build_markDefMap (elems (Node_MarkDefs n)) [] else [])
           (''['' @ showNat i @ '']'') n 0 (elems (Node_Children n))
       @ validate_markDefs (''['' @ showNat i @ '']'') n 0 (elems (Node_MarkDefs n))"
  by (simp add: validate_node_def Let_def)

lemma validate_node_in_doc:
  assumes "i < length (elems doc)" "e \<in> set (validate_node opts i (elems doc ! i))"
  shows "e \<in> set (ValidateWithOptions doc opts)"
  unfolding ValidateWithOptions_def
  using validate_nodes_nth [OF assms(1), of opts 0] assms(2) by auto

lemma child_finding_in_doc:
  assumes "i < length (elems doc)" "Node_Type (elems doc ! i) = ''block''"
    "j < length (elems (Node_Children (elems doc ! i)))"
    "e \<in> set (validate_child opts
        (if CheckMarkDefRefs opts
         then build_markDefMap (elems (Node_MarkDefs (elems doc ! i))) [] else [])
        (''['' @ showNat i @ '']'') (elems doc ! i) j
        (elems (Node_Children (elems doc ! i)) ! j))"
  shows "e \<in> set (ValidateWithOptions doc opts)"
proof -
  let ?n = "elems doc ! i"
  let ?m = "if CheckMarkDefRefs opts then build_markDefMap (elems (Node_MarkDefs ?n)) [] else []"
  from validate_children_nth [OF assms(3), of opts ?m "''['' @ showNat i @ '']''" ?n 0] assms(4)
  have "e \<in> set (validate_children opts ?m (''['' @ showNat i @ '']'') ?n 0 (elems (Node_Children ?n)))"
    by auto
  then have "e \<in> set (validate_node opts i ?n)"
    by (simp add: validate_node_block [OF assms(2)])
  with assms(1) show ?thesis by (rule validate_node_in_doc)
qed

lemma markDef_finding_in_doc:
  assumes "i < length (elems doc)" "Node_Type (elems doc ! i) = ''block''"
    "j < length (elems (Node_MarkDefs (elems doc ! i)))"
    "e \<in> set (validate_markDef (''['' @ showNat i @ '']'') (elems doc ! i) j
        (elems (Node_MarkDefs (elems doc ! i)) ! j))"
  shows "e \<in> set (ValidateWithOptions doc opts)"
proof -
  let ?n = "elems doc ! i"
  from validate_markDefs_nth [OF assms(3), of "''['' @ showNat i @ '']''" ?n 0] assms(4)
  have "e \<in> set (validate_markDefs (''['' @ showNat i @ '']'') ?n 0 (elems (Node_MarkDefs ?n)))"
    by auto
  then have "e \<in> set (validate_node opts i ?n)"
    by (simp add: validate_node_block [OF assms(2)])
  with assms(1) show ?thesis by (rule validate_node_in_doc)
qed

text \<open>
  C5: validation is a total function to a list of diagnostics, and no finding stops
  it. The result is the concatenation, in document order, of the diagnostics of every
  node; those of a block are the key diagnostic, then the diagnostics of every child in
  order, then those of every mark definition in order; and the mark check of a span
  reports every unresolved mark in order. Hence every finding is in the result,
  whatever precedes it: an empty discriminator of any node, a missing key of any node
  (with \<open>RequireKeys\<close>), and in any block an empty discriminator or an absent text of
  any child, any unresolved mark of any span (with \<open>CheckMarkDefRefs\<close>), and an empty
  discriminator or key of any mark definition. A document of a node with empty
  discriminator followed by a block whose only child is a span without text yields
  exactly two diagnostics; a document with nine independent findings yields the nine.
\<close>

theorem validation_accumulates:
  "ValidateWithOptions doc opts
     = concat (map (\<lambda>(i, n). validate_node opts i n) (enumerate 0 (elems doc)))
   \<and> (Node_Type n0 = ''block'' \<longrightarrow>
        validate_node opts i0 n0 =
          (if RequireKeys opts \<and> Node_Key n0 = []
           then [\<lparr>VE_Path = ''['' @ showNat i0 @ '']'', VE_Message = ''missing _key'',
                  VE_Node = n0\<rparr>]
           else [])
          @ concat (map (\<lambda>(j, c). validate_child opts
                (if CheckMarkDefRefs opts then build_markDefMap (elems (Node_MarkDefs n0)) []
                 else [])
                (''['' @ showNat i0 @ '']'') n0 j c) (enumerate 0 (elems (Node_Children n0))))
          @ concat (map (\<lambda>(j, md). validate_markDef (''['' @ showNat i0 @ '']'') n0 j md)
                (enumerate 0 (elems (Node_MarkDefs n0)))))
   \<and> validate_marks m cpath n0 marks
       = map (\<lambda>mark. \<lparr>VE_Path = cpath,
                        VE_Message = ''mark '' @ [CHR 0x27] @ mark @ [CHR 0x27] @ '' not found in markDefs'',
                        VE_Node = n0\<rparr>)
           (filter (\<lambda>mark. \<not> markDefMap_get m mark) marks)
   \<and> (i < length (elems doc) \<longrightarrow> nd = elems doc ! i \<longrightarrow>
        (Node_Type nd = [] \<longrightarrow>
           \<lparr>VE_Path = ''['' @ showNat i @ '']'', VE_Message = ''missing _type'', VE_Node = nd\<rparr>
             \<in> set (ValidateWithOptions doc opts))
        \<and> (Node_Type nd \<noteq> [] \<longrightarrow> RequireKeys opts \<longrightarrow> Node_Key nd = [] \<longrightarrow>
           \<lparr>VE_Path = ''['' @ showNat i @ '']'', VE_Message = ''missing _key'', VE_Node = nd\<rparr>
             \<in> set (ValidateWithOptions doc opts))
        \<and> (Node_Type nd = ''block'' \<longrightarrow> j < length (elems (Node_Children nd)) \<longrightarrow>
             c = elems (Node_Children nd) ! j \<longrightarrow>
             (Span_Type c = [] \<longrightarrow>
                \<lparr>VE_Path = ''['' @ showNat i @ ''].children['' @ showNat j @ '']'',
                 VE_Message = ''missing _type'', VE_Node = nd\<rparr>
                  \<in> set (ValidateWithOptions doc opts))
             \<and> (Span_Type c = ''span'' \<longrightarrow> Span_Text c = None \<longrightarrow>
                \<lparr>VE_Path = ''['' @ showNat i @ ''].children['' @ showNat j @ '']'',
                 VE_Message = ''span missing text'', VE_Node = nd\<rparr>
                  \<in> set (ValidateWithOptions doc opts))
             \<and> (Span_Type c = ''span'' \<longrightarrow> CheckMarkDefRefs opts \<longrightarrow>
                mark \<in> set (elems (Span_Marks c)) \<longrightarrow>
                mark \<notin> MarkDef_Key ` set (elems (Node_MarkDefs nd)) \<longrightarrow>
                \<lparr>VE_Path = ''['' @ showNat i @ ''].children['' @ showNat j @ '']'',
                 VE_Message = ''mark '' @ [CHR 0x27] @ mark @ [CHR 0x27] @ '' not found in markDefs'',
                 VE_Node = nd\<rparr>
                  \<in> set (ValidateWithOptions doc opts)))
        \<and> (Node_Type nd = ''block'' \<longrightarrow> k < length (elems (Node_MarkDefs nd)) \<longrightarrow>
             md = elems (Node_MarkDefs nd) ! k \<longrightarrow>
             (MarkDef_Type md = [] \<longrightarrow>
                \<lparr>VE_Path = ''['' @ showNat i @ ''].markDefs['' @ showNat k @ '']'',
                 VE_Message = ''markDef missing _type'', VE_Node = nd\<rparr>
                  \<in> set (ValidateWithOptions doc opts))
             \<and> (MarkDef_Key md = [] \<longrightarrow>
                \<lparr>VE_Path = ''['' @ showNat i @ ''].markDefs['' @ showNat k @ '']'',
                 VE_Message = ''markDef missing _key'', VE_Node = nd\<rparr>
                  \<in> set (ValidateWithOptions doc opts))))
   \<and> Validate (Some [a\<lparr>Node_Type := []\<rparr>,
                     b\<lparr>Node_Type := ''block'',
                       Node_Children := Some [c0\<lparr>Span_Type := ''span'', Span_Text := None\<rparr>],
                       Node_MarkDefs := None\<rparr>])
     = [\<lparr>VE_Path = ''[0]'', VE_Message = ''missing _type'', VE_Node = a\<lparr>Node_Type := []\<rparr>\<rparr>,
        \<lparr>VE_Path = ''[1].children[0]'', VE_Message = ''span missing text'',
         VE_Node = b\<lparr>Node_Type := ''block'',
                     Node_Children := Some [c0\<lparr>Span_Type := ''span'', Span_Text := None\<rparr>],
                     Node_MarkDefs := None\<rparr>\<rparr>]
   \<and> map (\<lambda>e. (VE_Path e, VE_Message e))
       (ValidateWithOptions
          (Some [NewNode [], \<lparr>Node_Type = ''block'', Node_Key = [], Node_Style = None,
          Node_Children = Some [\<lparr>Span_Type = [], Span_Text = None, Span_Marks = None,
                                 Span_Raw = []\<rparr>,
                                \<lparr>Span_Type = ''span'', Span_Text = None,
                                 Span_Marks = Some [''a'', ''b''], Span_Raw = []\<rparr>],
          Node_MarkDefs = Some [\<lparr>MarkDef_Key = [], MarkDef_Type = [], MarkDef_Raw = []\<rparr>,
                                \<lparr>MarkDef_Key = [], MarkDef_Type = ''link'', MarkDef_Raw = []\<rparr>],
          Node_ListItem = None, Node_Level = None, Node_Raw = []\<rparr>])
          \<lparr>RequireKeys = True, CheckMarkDefRefs = True, AllowEmptyText = False\<rparr>)
     = [(''[0]'', ''missing _type''),
        (''[1]'', ''missing _key''),
        (''[1].children[0]'', ''missing _type''),
        (''[1].children[1]'', ''span missing text''),
        (''[1].children[1]'', ''mark '' @ [CHR 0x27] @ ''a'' @ [CHR 0x27] @ '' not found in markDefs''),
        (''[1].children[1]'', ''mark '' @ [CHR 0x27] @ ''b'' @ [CHR 0x27] @ '' not found in markDefs''),
        (''[1].markDefs[0]'', ''markDef missing _type''),
        (''[1].markDefs[0]'', ''markDef missing _key''),
        (''[1].markDefs[1]'', ''markDef missing _key'')]"
proof (intro conjI impI)
  show "ValidateWithOptions doc opts
     = concat (map (\<lambda>(i, n). validate_node opts i n) (enumerate 0 (elems doc)))"
    by (simp add: ValidateWithOptions_def validate_nodes_concat)
next
  assume "Node_Type n0 = ''block''"
  then show "validate_node opts i0 n0 =
          (if RequireKeys opts \<and> Node_Key n0 = []
           then [\<lparr>VE_Path = ''['' @ showNat i0 @ '']'', VE_Message = ''missing _key'',
                  VE_Node = n0\<rparr>]
           else [])
          @ concat (map (\<lambda>(j, c). validate_child opts
                (if CheckMarkDefRefs opts then build_markDefMap (elems (Node_MarkDefs n0)) []
                 else [])
                (''['' @ showNat i0 @ '']'') n0 j c) (enumerate 0 (elems (Node_Children n0))))
          @ concat (map (\<lambda>(j, md). validate_markDef (''['' @ showNat i0 @ '']'') n0 j md)
                (enumerate 0 (elems (Node_MarkDefs n0))))"
    by (simp only: validate_node_block validate_children_concat validate_markDefs_concat)
next
  show "validate_marks m cpath n0 marks
       = map (\<lambda>mark. \<lparr>VE_Path = cpath,
                        VE_Message = ''mark '' @ [CHR 0x27] @ mark @ [CHR 0x27] @ '' not found in markDefs'',
                        VE_Node = n0\<rparr>)
           (filter (\<lambda>mark. \<not> markDefMap_get m mark) marks)"
    by (rule validate_marks_filter)
next
  assume i: "i < length (elems doc)" and nd: "nd = elems doc ! i"
  { assume "Node_Type nd = []"
    then have "\<lparr>VE_Path = ''['' @ showNat i @ '']'', VE_Message = ''missing _type'', VE_Node = nd\<rparr>
        \<in> set (validate_node opts i nd)"
      by (simp add: validate_node_def)
    with i nd show "\<lparr>VE_Path = ''['' @ showNat i @ '']'', VE_Message = ''missing _type'',
        VE_Node = nd\<rparr> \<in> set (ValidateWithOptions doc opts)"
      by (simp add: validate_node_in_doc) }
  { assume "Node_Type nd \<noteq> []" "RequireKeys opts" "Node_Key nd = []"
    then have "\<lparr>VE_Path = ''['' @ showNat i @ '']'', VE_Message = ''missing _key'', VE_Node = nd\<rparr>
        \<in> set (validate_node opts i nd)"
      by (simp add: validate_node_def Let_def)
    with i nd show "\<lparr>VE_Path = ''['' @ showNat i @ '']'', VE_Message = ''missing _key'',
        VE_Node = nd\<rparr> \<in> set (ValidateWithOptions doc opts)"
      by (simp add: validate_node_in_doc) }
  { assume b: "Node_Type nd = ''block''" and j: "j < length (elems (Node_Children nd))"
      and c: "c = elems (Node_Children nd) ! j"
    note lift = child_finding_in_doc [OF i b [unfolded nd] j [unfolded nd], of _ opts]
    { assume "Span_Type c = []"
      from lift [OF validate_child_missing_type [OF this [unfolded c nd]]]
      show "\<lparr>VE_Path = ''['' @ showNat i @ ''].children['' @ showNat j @ '']'',
                 VE_Message = ''missing _type'', VE_Node = nd\<rparr>
                  \<in> set (ValidateWithOptions doc opts)"
        by (simp add: nd) }
    { assume "Span_Type c = ''span''" "Span_Text c = None"
      from lift [OF validate_child_missing_text [OF this [unfolded c nd]]]
      show "\<lparr>VE_Path = ''['' @ showNat i @ ''].children['' @ showNat j @ '']'',
                 VE_Message = ''span missing text'', VE_Node = nd\<rparr>
                  \<in> set (ValidateWithOptions doc opts)"
        by (simp add: nd) }
    { assume s: "Span_Type c = ''span''" and ck: "CheckMarkDefRefs opts"
        and mk: "mark \<in> set (elems (Span_Marks c))"
        and un: "mark \<notin> MarkDef_Key ` set (elems (Node_MarkDefs nd))"
      from un have g: "\<not> markDefMap_get
          (if CheckMarkDefRefs opts
           then build_markDefMap (elems (Node_MarkDefs (elems doc ! i))) [] else []) mark"
        by (simp add: ck markDefMap_get_build nd markDefMap_get_Nil)
      from lift [OF validate_child_mark [OF s [unfolded c nd] ck mk [unfolded c nd] g]]
      show "\<lparr>VE_Path = ''['' @ showNat i @ ''].children['' @ showNat j @ '']'',
                 VE_Message = ''mark '' @ [CHR 0x27] @ mark @ [CHR 0x27] @ '' not found in markDefs'',
                 VE_Node = nd\<rparr>
                  \<in> set (ValidateWithOptions doc opts)"
        by (simp add: nd) } }
  { assume b: "Node_Type nd = ''block''" and k: "k < length (elems (Node_MarkDefs nd))"
      and md: "md = elems (Node_MarkDefs nd) ! k"
    note lift = markDef_finding_in_doc [OF i b [unfolded nd] k [unfolded nd], of _ opts]
    { assume "MarkDef_Type md = []"
      from lift [OF validate_markDef_missing_type [OF this [unfolded md nd]]]
      show "\<lparr>VE_Path = ''['' @ showNat i @ ''].markDefs['' @ showNat k @ '']'',
                 VE_Message = ''markDef missing _type'', VE_Node = nd\<rparr>
                  \<in> set (ValidateWithOptions doc opts)"
        by (simp add: nd) }
    { assume "MarkDef_Key md = []"
      from lift [OF validate_markDef_missing_key [OF this [unfolded md nd]]]
      show "\<lparr>VE_Path = ''['' @ showNat i @ ''].markDefs['' @ showNat k @ '']'',
                 VE_Message = ''markDef missing _key'', VE_Node = nd\<rparr>
                  \<in> set (ValidateWithOptions doc opts)"
        by (simp add: nd) } }
next
  show "Validate (Some [a\<lparr>Node_Type := []\<rparr>,
                     b\<lparr>Node_Type := ''block'',
                       Node_Children := Some [c0\<lparr>Span_Type := ''span'', Span_Text := None\<rparr>],
                       Node_MarkDefs := None\<rparr>])
     = [\<lparr>VE_Path = ''[0]'', VE_Message = ''missing _type'', VE_Node = a\<lparr>Node_Type := []\<rparr>\<rparr>,
        \<lparr>VE_Path = ''[1].children[0]'', VE_Message = ''span missing text'',
         VE_Node = b\<lparr>Node_Type := ''block'',
                     Node_Children := Some [c0\<lparr>Span_Type := ''span'', Span_Text := None\<rparr>],
                     Node_MarkDefs := None\<rparr>\<rparr>]"
    by (simp add: Validate_def zero_ValidationOptions_def ValidateWithOptions_def
        validate_node_def validate_child_def showNat_0 showNat_1)
next
  show "map (\<lambda>e. (VE_Path e, VE_Message e))
       (ValidateWithOptions
          (Some [NewNode [], \<lparr>Node_Type = ''block'', Node_Key = [], Node_Style = None,
          Node_Children = Some [\<lparr>Span_Type = [], Span_Text = None, Span_Marks = None,
                                 Span_Raw = []\<rparr>,
                                \<lparr>Span_Type = ''span'', Span_Text = None,
                                 Span_Marks = Some [''a'', ''b''], Span_Raw = []\<rparr>],
          Node_MarkDefs = Some [\<lparr>MarkDef_Key = [], MarkDef_Type = [], MarkDef_Raw = []\<rparr>,
                                \<lparr>MarkDef_Key = [], MarkDef_Type = ''link'', MarkDef_Raw = []\<rparr>],
          Node_ListItem = None, Node_Level = None, Node_Raw = []\<rparr>])
          \<lparr>RequireKeys = True, CheckMarkDefRefs = True, AllowEmptyText = False\<rparr>)
     = [(''[0]'', ''missing _type''),
        (''[1]'', ''missing _key''),
        (''[1].children[0]'', ''missing _type''),
        (''[1].children[1]'', ''span missing text''),
        (''[1].children[1]'', ''mark '' @ [CHR 0x27] @ ''a'' @ [CHR 0x27] @ '' not found in markDefs''),
        (''[1].children[1]'', ''mark '' @ [CHR 0x27] @ ''b'' @ [CHR 0x27] @ '' not found in markDefs''),
        (''[1].markDefs[0]'', ''markDef missing _type''),
        (''[1].markDefs[0]'', ''markDef missing _key''),
        (''[1].markDefs[1]'', ''markDef missing _key'')]"
    by (simp add: ValidateWithOptions_def NewNode_def validate_node_def validate_child_def
        validate_markDef_def markDefMap_get_def Let_def showNat_0 showNat_1)
qed

theorem validation_accumulates_witness:
  "\<lparr>VE_Path = ''[1].children[1]'',
    VE_Message = ''mark '' @ [CHR 0x27] @ ''b'' @ [CHR 0x27] @ '' not found in markDefs'',
    VE_Node = \<lparr>Node_Type = ''block'', Node_Key = [], Node_Style = None,
          Node_Children = Some [\<lparr>Span_Type = [], Span_Text = None, Span_Marks = None,
                                 Span_Raw = []\<rparr>,
                                \<lparr>Span_Type = ''span'', Span_Text = None,
                                 Span_Marks = Some [''a'', ''b''], Span_Raw = []\<rparr>],
          Node_MarkDefs = Some [\<lparr>MarkDef_Key = [], MarkDef_Type = [], MarkDef_Raw = []\<rparr>,
                                \<lparr>MarkDef_Key = [], MarkDef_Type = ''link'', MarkDef_Raw = []\<rparr>],
          Node_ListItem = None, Node_Level = None, Node_Raw = []\<rparr>\<rparr>
     \<in> set (ValidateWithOptions
          (Some [NewNode [], \<lparr>Node_Type = ''block'', Node_Key = [], Node_Style = None,
          Node_Children = Some [\<lparr>Span_Type = [], Span_Text = None, Span_Marks = None,
                                 Span_Raw = []\<rparr>,
                                \<lparr>Span_Type = ''span'', Span_Text = None,
                                 Span_Marks = Some [''a'', ''b''], Span_Raw = []\<rparr>],
          Node_MarkDefs = Some [\<lparr>MarkDef_Key = [], MarkDef_Type = [], MarkDef_Raw = []\<rparr>,
                                \<lparr>MarkDef_Key = [], MarkDef_Type = ''link'', MarkDef_Raw = []\<rparr>],
          Node_ListItem = None, Node_Level = None, Node_Raw = []\<rparr>])
          \<lparr>RequireKeys = True, CheckMarkDefRefs = True, AllowEmptyText = False\<rparr>)
   \<and> \<lparr>VE_Path = ''[1].markDefs[1]'', VE_Message = ''markDef missing _key'',
    VE_Node = \<lparr>Node_Type = ''block'', Node_Key = [], Node_Style = None,
          Node_Children = Some [\<lparr>Span_Type = [], Span_Text = None, Span_Marks = None,
                                 Span_Raw = []\<rparr>,
                                \<lparr>Span_Type = ''span'', Span_Text = None,
                                 Span_Marks = Some [''a'', ''b''], Span_Raw = []\<rparr>],
          Node_MarkDefs = Some [\<lparr>MarkDef_Key = [], MarkDef_Type = [], MarkDef_Raw = []\<rparr>,
                                \<lparr>MarkDef_Key = [], MarkDef_Type = ''link'', MarkDef_Raw = []\<rparr>],
          Node_ListItem = None, Node_Level = None, Node_Raw = []\<rparr>\<rparr>
     \<in> set (ValidateWithOptions
          (Some [NewNode [], \<lparr>Node_Type = ''block'', Node_Key = [], Node_Style = None,
          Node_Children = Some [\<lparr>Span_Type = [], Span_Text = None, Span_Marks = None,
                                 Span_Raw = []\<rparr>,
                                \<lparr>Span_Type = ''span'', Span_Text = None,
                                 Span_Marks = Some [''a'', ''b''], Span_Raw = []\<rparr>],
          Node_MarkDefs = Some [\<lparr>MarkDef_Key = [], MarkDef_Type = [], MarkDef_Raw = []\<rparr>,
                                \<lparr>MarkDef_Key = [], MarkDef_Type = ''link'', MarkDef_Raw = []\<rparr>],
          Node_ListItem = None, Node_Level = None, Node_Raw = []\<rparr>])
          \<lparr>RequireKeys = True, CheckMarkDefRefs = True, AllowEmptyText = False\<rparr>)"
  using validation_accumulates
    [where doc = "(Some [NewNode [], \<lparr>Node_Type = ''block'', Node_Key = [], Node_Style = None,
          Node_Children = Some [\<lparr>Span_Type = [], Span_Text = None, Span_Marks = None,
                                 Span_Raw = []\<rparr>,
                                \<lparr>Span_Type = ''span'', Span_Text = None,
                                 Span_Marks = Some [''a'', ''b''], Span_Raw = []\<rparr>],
          Node_MarkDefs = Some [\<lparr>MarkDef_Key = [], MarkDef_Type = [], MarkDef_Raw = []\<rparr>,
                                \<lparr>MarkDef_Key = [], MarkDef_Type = ''link'', MarkDef_Raw = []\<rparr>],
          Node_ListItem = None, Node_Level = None, Node_Raw = []\<rparr>])"
       and opts = "\<lparr>RequireKeys = True, CheckMarkDefRefs = True, AllowEmptyText = False\<rparr>"
       and i = 1 and j = 1 and k = 1 and mark = "''b''"
       and nd = "\<lparr>Node_Type = ''block'', Node_Key = [], Node_Style = None,
          Node_Children = Some [\<lparr>Span_Type = [], Span_Text = None, Span_Marks = None,
                                 Span_Raw = []\<rparr>,
                                \<lparr>Span_Type = ''span'', Span_Text = None,
                                 Span_Marks = Some [''a'', ''b''], Span_Raw = []\<rparr>],
          Node_MarkDefs = Some [\<lparr>MarkDef_Key = [], MarkDef_Type = [], MarkDef_Raw = []\<rparr>,
                                \<lparr>MarkDef_Key = [], MarkDef_Type = ''link'', MarkDef_Raw = []\<rparr>],
          Node_ListItem = None, Node_Level = None, Node_Raw = []\<rparr>"
       and c = "\<lparr>Span_Type = ''span'', Span_Text = None,
                                 Span_Marks = Some [''a'', ''b''], Span_Raw = []\<rparr>"
       and md = "\<lparr>MarkDef_Key = [], MarkDef_Type = ''link'', MarkDef_Raw = []\<rparr>"]
  by (simp add: ValidateWithOptions_def NewNode_def validate_node_def validate_child_def
      validate_markDef_def markDefMap_get_def Let_def showNat_0 showNat_1)

section \<open>Properties of the traversal\<close>

lemma Walk_loop_append:
  "Walk_loop (xs @ ys) fn s =
     (case Walk_loop xs fn s of
        (Some e, xs', s') \<Rightarrow> (Some e, xs' @ ys, s')
      | (None, xs', s') \<Rightarrow>
          (case Walk_loop ys fn s' of (r, ys', s'') \<Rightarrow> (r, xs' @ ys', s'')))"
  by (induction xs arbitrary: s) (auto split: prod.splits option.splits)

text \<open>
  C7: \<open>Walk\<close> visits the nodes in document order and stops at the first error, which
  it returns as it is: walking \<open>xs @ ys\<close> is walking \<open>xs\<close> and, only when that returned
  no error, walking \<open>ys\<close> from the state reached; after an error the remaining nodes
  are returned untouched. For a document of three nodes and a callback that returns no
  error on the first node and the error \<open>e\<close> on the second, the result is \<open>e\<close>, the
  callback has been invoked exactly twice and the third node has not been visited.
\<close>

theorem Walk_early_exit:
  "Walk (Some (xs @ ys)) fn s =
     (case Walk (Some xs) fn s of
        (Some e, xs', s') \<Rightarrow> (Some e, xs' @ ys, s')
      | (None, xs', s') \<Rightarrow>
          (case Walk (Some ys) fn s' of (r, ys', s'') \<Rightarrow> (r, xs' @ ys', s'')))
   \<and> (g a s0 = (None, a', s1) \<longrightarrow> g b s1 = (Some err, b', s2) \<longrightarrow>
        Walk (Some [a, b, c]) (counting g) (s0, 0) = (Some err, [a', b', c], (s2, 2)))"
  by (auto simp: Walk_def Walk_loop_append counting_def split: prod.splits option.splits)

theorem Walk_early_exit_witness:
  "Walk (Some [NewBlock ''h1'', NewBlock ''h2'', NewBlock ''h3''])
        (counting (\<lambda>n s. (if s = Suc 0 then Some ''stop'' else None, n, Suc s))) (0, 0)
     = (Some ''stop'', [NewBlock ''h1'', NewBlock ''h2'', NewBlock ''h3''], (2, 2))"
  using Walk_early_exit [of "[]" "[]" "\<lambda>n s. (None, n, s)" "0::nat"
      "\<lambda>n s. (if s = Suc 0 then Some ''stop'' else None, n, Suc s)"
      "NewBlock ''h1''" 0 "NewBlock ''h1''" "Suc 0" "NewBlock ''h2''" "''stop''"
      "NewBlock ''h2''" 2 "NewBlock ''h3''"]
  by (simp add: Walk_def)

section \<open>Properties of the decoder\<close>

subsection \<open>One iteration leaves the other field names alone\<close>

lemma parseNode_field_type: "parseNode_field path ''_type'' v n = Inr n"
  by (simp add: parseNode_field_def)

lemma parseNode_field_key:
  "parseNode_field path ''_key'' v n =
     (case v of JStr s \<Rightarrow> Inr (n\<lparr>Node_Key := s\<rparr>)
      | _ \<Rightarrow> Inr (n\<lparr>Node_Raw := AList.update ''_key'' v (Node_Raw n)\<rparr>))"
  by (simp add: parseNode_field_def split: json.splits)

lemma parseNode_field_style:
  "parseNode_field path ''style'' v n =
     (case v of JStr s \<Rightarrow> Inr (n\<lparr>Node_Style := Some s\<rparr>)
      | _ \<Rightarrow> Inr (n\<lparr>Node_Raw := AList.update ''style'' v (Node_Raw n)\<rparr>))"
  by (simp add: parseNode_field_def split: json.splits)

lemma parseNode_field_listItem:
  "parseNode_field path ''listItem'' v n =
     (case v of JStr s \<Rightarrow> Inr (n\<lparr>Node_ListItem := Some s\<rparr>)
      | _ \<Rightarrow> Inr (n\<lparr>Node_Raw := AList.update ''listItem'' v (Node_Raw n)\<rparr>))"
  by (simp add: parseNode_field_def split: json.splits)

lemma parseNode_field_level:
  "parseNode_field path ''level'' v n =
     (case v of
        JNum x \<Rightarrow> (case Int64 x of
                     None \<Rightarrow> Inl (wrap ''node'' (path @ ''.level'') ErrInvalidNumber)
                   | Some iv \<Rightarrow> Inr (n\<lparr>Node_Level := Some iv\<rparr>))
      | _ \<Rightarrow> Inr (n\<lparr>Node_Raw := AList.update ''level'' v (Node_Raw n)\<rparr>))"
  by (simp add: parseNode_field_def split: json.splits)

lemma parseNode_field_children:
  "parseNode_field path ''children'' v n =
     (if v = JNull then Inr (n\<lparr>Node_Raw := AList.update ''children'' JNull (Node_Raw n)\<rparr>)
      else case parseSpanArray v (path @ ''.children'') of
             Inl err \<Rightarrow> Inl err
           | Inr children \<Rightarrow> Inr (n\<lparr>Node_Children := Some children\<rparr>))"
  by (simp add: parseNode_field_def)

lemma parseNode_field_markDefs:
  "parseNode_field path ''markDefs'' v n =
     (if v = JNull then Inr (n\<lparr>Node_Raw := AList.update ''markDefs'' JNull (Node_Raw n)\<rparr>)
      else case parseMarkDefArray v (path @ ''.markDefs'') of
             Inl err \<Rightarrow> Inl err
           | Inr mds \<Rightarrow> Inr (n\<lparr>Node_MarkDefs := Some mds\<rparr>))"
  by (simp add: parseNode_field_def)

lemma parseNode_field_other:
  "k \<noteq> ''_type'' \<and> k \<noteq> ''_key'' \<and> k \<noteq> ''style'' \<and> k \<noteq> ''children'' \<and> k \<noteq> ''markDefs''
     \<and> k \<noteq> ''listItem'' \<and> k \<noteq> ''level'' \<Longrightarrow>
     parseNode_field path k v n = Inr (n\<lparr>Node_Raw := AList.update k v (Node_Raw n)\<rparr>)"
  by (simp add: parseNode_field_def)

lemma Node_slot_Raw:
  "k' \<noteq> k \<Longrightarrow> Node_slot k (n\<lparr>Node_Raw := AList.update k' v (Node_Raw n)\<rparr>) = Node_slot k n"
  by (simp add: Node_slot_def update_conv')

lemma parseNode_field_frame:
  assumes "k' \<noteq> k" "parseNode_field path k' v n = Inr n'"
  shows "Node_slot k n' = Node_slot k n"
proof -
  consider "k' = ''_type''" | "k' = ''_key''" | "k' = ''style''" | "k' = ''children''"
    | "k' = ''markDefs''" | "k' = ''listItem''" | "k' = ''level''"
    | "k' \<noteq> ''_type'' \<and> k' \<noteq> ''_key'' \<and> k' \<noteq> ''style'' \<and> k' \<noteq> ''children''
       \<and> k' \<noteq> ''markDefs'' \<and> k' \<noteq> ''listItem'' \<and> k' \<noteq> ''level''"
    by argo
  then show ?thesis
  proof cases
    case 1
    with assms show ?thesis by (simp add: parseNode_field_type)
  next
    case 2
    with assms(1) have k: "k \<noteq> ''_key''" by simp
    show ?thesis
    proof (cases v)
      case (JStr s)
      with assms 2 have "n' = n\<lparr>Node_Key := s\<rparr>" by (simp add: parseNode_field_key)
      with k show ?thesis by (simp add: Node_slot_def)
    qed (use assms 2 in \<open>auto simp: parseNode_field_key Node_slot_Raw\<close>)
  next
    case 3
    with assms(1) have k: "k \<noteq> ''style''" by simp
    show ?thesis
    proof (cases v)
      case (JStr s)
      with assms 3 have "n' = n\<lparr>Node_Style := Some s\<rparr>" by (simp add: parseNode_field_style)
      with k show ?thesis by (simp add: Node_slot_def)
    qed (use assms 3 in \<open>auto simp: parseNode_field_style Node_slot_Raw\<close>)
  next
    case 4
    with assms(1) have k: "k \<noteq> ''children''" by simp
    show ?thesis
    proof (cases "v = JNull")
      case True
      with assms 4 show ?thesis by (auto simp: parseNode_field_children Node_slot_Raw)
    next
      case False
      with assms 4 obtain cs where "n' = n\<lparr>Node_Children := Some cs\<rparr>"
        by (auto simp: parseNode_field_children split: sum.splits)
      with k show ?thesis by (simp add: Node_slot_def)
    qed
  next
    case 5
    with assms(1) have k: "k \<noteq> ''markDefs''" by simp
    show ?thesis
    proof (cases "v = JNull")
      case True
      with assms 5 show ?thesis by (auto simp: parseNode_field_markDefs Node_slot_Raw)
    next
      case False
      with assms 5 obtain mds where "n' = n\<lparr>Node_MarkDefs := Some mds\<rparr>"
        by (auto simp: parseNode_field_markDefs split: sum.splits)
      with k show ?thesis by (simp add: Node_slot_def)
    qed
  next
    case 6
    with assms(1) have k: "k \<noteq> ''listItem''" by simp
    show ?thesis
    proof (cases v)
      case (JStr s)
      with assms 6 have "n' = n\<lparr>Node_ListItem := Some s\<rparr>" by (simp add: parseNode_field_listItem)
      with k show ?thesis by (simp add: Node_slot_def)
    qed (use assms 6 in \<open>auto simp: parseNode_field_listItem Node_slot_Raw\<close>)
  next
    case 7
    with assms(1) have k: "k \<noteq> ''level''" by simp
    show ?thesis
    proof (cases v)
      case (JNum x)
      with assms 7 obtain iv where "n' = n\<lparr>Node_Level := Some iv\<rparr>"
        by (auto simp: parseNode_field_level split: option.splits)
      with k show ?thesis by (simp add: Node_slot_def)
    qed (use assms 7 in \<open>auto simp: parseNode_field_level Node_slot_Raw\<close>)
  next
    case 8
    with assms have "n' = n\<lparr>Node_Raw := AList.update k' v (Node_Raw n)\<rparr>"
      by (simp add: parseNode_field_other)
    with assms(1) show ?thesis by (simp add: Node_slot_Raw)
  qed
qed

lemma split_distinct:
  assumes "distinct (map fst obj)" "map_of obj k = Some v"
  shows "\<exists>pre post. obj = pre @ (k, v) # post \<and> k \<notin> fst ` set pre \<and> k \<notin> fst ` set post"
proof -
  from assms(2) have "(k, v) \<in> set obj" by (rule map_of_SomeD)
  then obtain pre post where o: "obj = pre @ (k, v) # post" by (auto dest: split_list)
  with assms(1) have "k \<notin> fst ` set pre \<and> k \<notin> fst ` set post" by auto
  with o show ?thesis by blast
qed

lemma parseNode_loop_append:
  "parseNode_loop path (xs @ ys) n =
     (case parseNode_loop path xs n of Inl e \<Rightarrow> Inl e | Inr n1 \<Rightarrow> parseNode_loop path ys n1)"
  by (induction xs arbitrary: n) (auto split: sum.splits)

lemma parseNode_loop_frame:
  "parseNode_loop path obj n = Inr n' \<Longrightarrow> k \<notin> fst ` set obj \<Longrightarrow> Node_slot k n' = Node_slot k n"
proof (induction obj arbitrary: n)
  case Nil
  then show ?case by simp
next
  case (Cons p obj)
  obtain k' v where p: "p = (k', v)" by (cases p)
  with Cons.prems obtain n1 where s: "parseNode_field path k' v n = Inr n1"
    and l: "parseNode_loop path obj n1 = Inr n'"
    by (auto split: sum.splits)
  from Cons.prems p have "k' \<noteq> k" "k \<notin> fst ` set obj" by auto
  with Cons.IH [OF l] parseNode_field_frame [OF _ s, of k] show ?case by simp
qed

lemma parseNode_loop_at:
  assumes "distinct (map fst obj)" "map_of obj k = Some v" "parseNode_loop path obj n = Inr n'"
  shows "\<exists>n1 n2. Node_slot k n1 = Node_slot k n \<and> parseNode_field path k v n1 = Inr n2
           \<and> Node_slot k n' = Node_slot k n2"
proof -
  from split_distinct [OF assms(1,2)] obtain pre post
    where o: "obj = pre @ (k, v) # post" and pre: "k \<notin> fst ` set pre" and post: "k \<notin> fst ` set post"
    by blast
  from assms(3) o obtain n1 where l1: "parseNode_loop path pre n = Inr n1"
    and r: "parseNode_loop path ((k, v) # post) n1 = Inr n'"
    by (auto simp: parseNode_loop_append split: sum.splits)
  from r obtain n2 where s: "parseNode_field path k v n1 = Inr n2"
    and l2: "parseNode_loop path post n2 = Inr n'"
    by (auto split: sum.splits)
  from parseNode_loop_frame [OF l1 pre] parseNode_loop_frame [OF l2 post] s
  show ?thesis by blast
qed





lemma parseMarkDef_loop_Key: "MarkDef_Key (parseMarkDef_loop obj md) = MarkDef_Key md"
  by (induction obj arbitrary: md) auto

lemma parseMarkDef_loop_Type: "MarkDef_Type (parseMarkDef_loop obj md) = MarkDef_Type md"
  by (induction obj arbitrary: md) auto

lemma parseMarkDef_loop_Raw_known:
  "k = ''_type'' \<or> k = ''_key'' \<Longrightarrow>
     map_of (MarkDef_Raw (parseMarkDef_loop obj md)) k = map_of (MarkDef_Raw md) k"
  by (induction obj arbitrary: md) (auto simp: update_conv')



subsection \<open>Explicit nulls\<close>









lemma parseNode_InrD:
  assumes "parseNode (JObj obj) path = Inr n"
  shows "\<exists>ts. map_of obj ''_type'' = Some (JStr ts) \<and> ts \<noteq> [] \<and>
    parseNode_loop path obj \<lparr>Node_Type = ts, Node_Key = [], Node_Style = None, Node_Children = None,
                       Node_MarkDefs = None, Node_ListItem = None, Node_Level = None,
                       Node_Raw = []\<rparr> = Inr n"
proof -
  from assms obtain t ts where t: "map_of obj ''_type'' = Some t" "type_string t = Some ts"
    and l: "parseNode_loop path obj \<lparr>Node_Type = ts, Node_Key = [], Node_Style = None, Node_Children = None,
                       Node_MarkDefs = None, Node_ListItem = None, Node_Level = None,
                       Node_Raw = []\<rparr> = Inr n"
    by (auto simp: parseNode_def split: option.splits)
  from t(2) have "t = JStr ts \<and> ts \<noteq> []" by (cases t) (auto split: if_splits)
  with t l show ?thesis by blast
qed


lemma parseMarkDef_InrD:
  assumes "parseMarkDef (JObj obj) path = Inr md"
  shows "\<exists>ts. map_of obj ''_type'' = Some (JStr ts) \<and> ts \<noteq> [] \<and>
    md = parseMarkDef_loop obj (parseMarkDef_key obj \<lparr>MarkDef_Key = [], MarkDef_Type = ts, MarkDef_Raw = []\<rparr>)"
proof -
  from assms obtain t ts where t: "map_of obj ''_type'' = Some t" "type_string t = Some ts"
    and l: "md = parseMarkDef_loop obj (parseMarkDef_key obj \<lparr>MarkDef_Key = [], MarkDef_Type = ts, MarkDef_Raw = []\<rparr>)"
    by (auto simp: parseMarkDef_def split: option.splits)
  from t(2) have "t = JStr ts \<and> ts \<noteq> []" by (cases t) (auto split: if_splits)
  with t l show ?thesis by blast
qed






subsection \<open>Values of the wrong shape\<close>



















section \<open>Properties of the encoder\<close>

lemma map_of_update_at: "map_of (AList.update k' v m) k = (if k = k' then Some v else map_of m k)"
  by (simp add: update_conv')

lemma map_of_copy_into_None:
  "(map_of (copy_into raw m) k = None) = (map_of raw k = None \<and> map_of m k = None)"
proof (induction raw arbitrary: m)
  case Nil
  show ?case by simp
next
  case (Cons p raw)
  obtain k' v where p: "p = (k', v)" by (cases p)
  show ?case unfolding p by (simp add: Cons.IH map_of_update_at)
qed

lemma map_of_opt_update:
  "k' \<noteq> k \<Longrightarrow> map_of (case x of None \<Rightarrow> m | Some y \<Rightarrow> AList.update k' (f y) m) k = map_of m k"
  by (cases x) (simp_all add: map_of_update_at)

lemma Node_MarshalJSON_key:
  assumes "Node_Key n = []" "map_of (Node_Raw n) ''_key'' = None"
  shows "\<exists>m. Node_MarshalJSON n = JObj m \<and> map_of m ''_key'' = None"
proof -
  have "map_of (copy_into (Node_Raw n) []) ''_key'' = None"
    using assms(2) by (simp add: map_of_copy_into_None)
  with assms(1) show ?thesis
    unfolding Node_MarshalJSON_def Let_def
    by (simp add: map_of_opt_update map_of_update_at)
qed

lemma MarkDef_MarshalJSON_key:
  assumes "MarkDef_Key md = []" "map_of (MarkDef_Raw md) ''_key'' = None"
  shows "\<exists>m. MarkDef_MarshalJSON md = JObj m \<and> map_of m ''_key'' = None"
proof -
  have "map_of (copy_into (MarkDef_Raw md) []) ''_key'' = None"
    using assms(2) by (simp add: map_of_copy_into_None)
  with assms(1) show ?thesis
    unfolding MarkDef_MarshalJSON_def Let_def
    by (simp add: map_of_update_at)
qed

lemma parseNode_empty_key:
  assumes "distinct (map fst obj)" "map_of obj ''_key'' = Some (JStr [])"
    "parseNode (JObj obj) path = Inr n"
  shows "Node_Key n = [] \<and> map_of (Node_Raw n) ''_key'' = None"
proof -
  from parseNode_InrD [OF assms(3)] obtain ts where
    l: "parseNode_loop path obj \<lparr>Node_Type = ts, Node_Key = [], Node_Style = None, Node_Children = None,
                       Node_MarkDefs = None, Node_ListItem = None, Node_Level = None,
                       Node_Raw = []\<rparr> = Inr n" (is "parseNode_loop path obj ?n0 = Inr n")
    by blast
  from parseNode_loop_at [OF assms(1,2) l] obtain n1 n2
    where a: "Node_slot ''_key'' n1 = Node_slot ''_key'' ?n0"
      and s: "parseNode_field path ''_key'' (JStr []) n1 = Inr n2"
      and b: "Node_slot ''_key'' n = Node_slot ''_key'' n2"
    by blast
  from s have "n2 = n1\<lparr>Node_Key := []\<rparr>" by (simp add: parseNode_field_key)
  with a b have "Node_slot ''_key'' n = Node_slot ''_key'' ?n0"
    by (simp add: Node_slot_def)
  then show ?thesis by (simp add: Node_slot_def)
qed

lemma parseMarkDef_empty_key:
  assumes "map_of obj ''_key'' = Some (JStr [])" "parseMarkDef (JObj obj) path = Inr md"
  shows "MarkDef_Key md = [] \<and> map_of (MarkDef_Raw md) ''_key'' = None"
proof -
  from parseMarkDef_InrD [OF assms(2)] obtain ts where
    md: "md = parseMarkDef_loop obj (parseMarkDef_key obj \<lparr>MarkDef_Key = [], MarkDef_Type = ts, MarkDef_Raw = []\<rparr>)"
    by blast
  with assms(1) show ?thesis
    by (simp add: parseMarkDef_loop_Key parseMarkDef_loop_Raw_known parseMarkDef_key_def)
qed

text \<open>
  C10: a node or mark definition whose \<open>Key\<close> is the empty string and whose raw store
  has no entry \<open>_key\<close> is encoded as an object without the member \<open>_key\<close>. An incoming
  \<open>"_key": ""\<close> is decoded into exactly this state (typed slot empty, nothing in the
  raw store), so it is not written back by the encoder.
\<close>

theorem empty_key_erased:
  "(Node_Key n = [] \<longrightarrow> map_of (Node_Raw n) ''_key'' = None \<longrightarrow>
      (\<exists>m. Node_MarshalJSON n = JObj m \<and> map_of m ''_key'' = None))
   \<and> (MarkDef_Key md = [] \<longrightarrow> map_of (MarkDef_Raw md) ''_key'' = None \<longrightarrow>
      (\<exists>m. MarkDef_MarshalJSON md = JObj m \<and> map_of m ''_key'' = None))
   \<and> (distinct (map fst obj) \<longrightarrow> map_of obj ''_key'' = Some (JStr []) \<longrightarrow>
        parseNode (JObj obj) path = Inr n' \<longrightarrow>
          Node_Key n' = [] \<and> map_of (Node_Raw n') ''_key'' = None
          \<and> (\<exists>m. Node_MarshalJSON n' = JObj m \<and> map_of m ''_key'' = None))
   \<and> (distinct (map fst obj) \<longrightarrow> map_of obj ''_key'' = Some (JStr []) \<longrightarrow>
        parseMarkDef (JObj obj) path = Inr md' \<longrightarrow>
          MarkDef_Key md' = [] \<and> map_of (MarkDef_Raw md') ''_key'' = None
          \<and> (\<exists>m. MarkDef_MarshalJSON md' = JObj m \<and> map_of m ''_key'' = None))"
proof (intro conjI impI)
  assume "Node_Key n = []" "map_of (Node_Raw n) ''_key'' = None"
  then show "\<exists>m. Node_MarshalJSON n = JObj m \<and> map_of m ''_key'' = None"
    by (rule Node_MarshalJSON_key)
next
  assume "MarkDef_Key md = []" "map_of (MarkDef_Raw md) ''_key'' = None"
  then show "\<exists>m. MarkDef_MarshalJSON md = JObj m \<and> map_of m ''_key'' = None"
    by (rule MarkDef_MarshalJSON_key)
next
  assume h: "distinct (map fst obj)" "map_of obj ''_key'' = Some (JStr [])"
    "parseNode (JObj obj) path = Inr n'"
  note r = parseNode_empty_key [OF h]
  from r show "Node_Key n' = []" by (rule conjunct1)
  from r show "map_of (Node_Raw n') ''_key'' = None" by (rule conjunct2)
  from r show "\<exists>m. Node_MarshalJSON n' = JObj m \<and> map_of m ''_key'' = None"
    by (intro Node_MarshalJSON_key) simp_all
next
  assume h: "distinct (map fst obj)" "map_of obj ''_key'' = Some (JStr [])"
    "parseMarkDef (JObj obj) path = Inr md'"
  note r = parseMarkDef_empty_key [OF h(2,3)]
  from r show "MarkDef_Key md' = []" by (rule conjunct1)
  from r show "map_of (MarkDef_Raw md') ''_key'' = None" by (rule conjunct2)
  from r show "\<exists>m. MarkDef_MarshalJSON md' = JObj m \<and> map_of m ''_key'' = None"
    by (intro MarkDef_MarshalJSON_key) simp_all
qed

theorem empty_key_erased_witness:
  "Node_MarshalJSON (NewNode ''image'') = JObj [(''_type'', JStr ''image'')]
   \<and> MarkDef_MarshalJSON \<lparr>MarkDef_Key = [], MarkDef_Type = ''link'', MarkDef_Raw = []\<rparr>
       = JObj [(''_type'', JStr ''link'')]
   \<and> parseNode (JObj [(''_type'', JStr ''image''), (''_key'', JStr [])]) ''[0]''
       = Inr (NewNode ''image'')
   \<and> parseMarkDef (JObj [(''_type'', JStr ''link''), (''_key'', JStr [])]) ''[0].markDefs[0]''
       = Inr \<lparr>MarkDef_Key = [], MarkDef_Type = ''link'', MarkDef_Raw = []\<rparr>"
  using empty_key_erased
    [of "NewNode ''image''" "\<lparr>MarkDef_Key = [], MarkDef_Type = ''link'', MarkDef_Raw = []\<rparr>"
        "[(''_type'', JStr ''image''), (''_key'', JStr [])]" "''[0]''" "NewNode ''image''"
        "\<lparr>MarkDef_Key = [], MarkDef_Type = ''link'', MarkDef_Raw = []\<rparr>"]
  by (simp add: NewNode_def Node_MarshalJSON_def MarkDef_MarshalJSON_def parseNode_def
      parseNode_field_def parseMarkDef_def parseMarkDef_key_def)

section \<open>Round trip\<close>

text \<open>
  C1 at the empty document: \<open>Decode\<close> of the empty array succeeds and returns the nil
  document (\<open>var doc Document\<close> is never appended to); \<open>Encode\<close> writes a nil slice as
  \<open>null\<close>; and \<open>Decode\<close> of \<open>null\<close> fails with \<open>UnexpectedToken\<close>, its first token
  not being the delimiter \<open>[\<close>. So decoding the encoding of this successfully decoded
  document does not succeed.
\<close>

theorem empty_document_round_trip_fails:
  "Decode (JArr []) = Inr None
   \<and> Encode None = JNull
   \<and> Decode (Encode None) = Inl \<lparr>Op = ''decode'', Path = [], Err = ErrUnexpectedToken\<rparr>"
  by (simp add: wrap_def)

section \<open>Properties of Filter\<close>

lemma Filter_loop_map:
  "Filter_loop ns pred result = result @ map Clone (filter pred ns)"
  by (induction ns arbitrary: result) simp_all

lemma Filter_map: "Filter doc pred = Some (map Clone (filter pred (elems doc)))"
  by (simp add: Filter_def Filter_loop_map)

text \<open>
  C8 at a document decoded from a block whose span has \<open>"marks": []\<close>: \<open>Filter\<close> with
  the predicate that is always true returns a node whose span has the nil slice for
  \<open>Marks\<close> where the original has the empty one (\<open>cloneSpans\<close> copies the marks with
  \<open>append([]string(nil), ...)\<close>, which returns nil when there is nothing to append), so
  the result is not a copy of the original: the original encodes with the member
  \<open>"marks": []\<close> and the result without it.
\<close>

theorem Filter_drops_empty_marks:
  "Decode (JArr [JObj [(''_type'', JStr ''block''),
       (''children'', JArr [JObj [(''_type'', JStr ''span''), (''text'', JStr ''x''),
                                  (''marks'', JArr [])]])]])
     = Inr (Some [\<lparr>Node_Type = ''block'', Node_Key = [], Node_Style = None,
            Node_Children = Some [\<lparr>Span_Type = ''span'', Span_Text = Some ''x'',
                                   Span_Marks = Some [], Span_Raw = []\<rparr>],
            Node_MarkDefs = None, Node_ListItem = None, Node_Level = None, Node_Raw = []\<rparr>])
   \<and> Filter (Some [\<lparr>Node_Type = ''block'', Node_Key = [], Node_Style = None,
            Node_Children = Some [\<lparr>Span_Type = ''span'', Span_Text = Some ''x'',
                                   Span_Marks = Some [], Span_Raw = []\<rparr>],
            Node_MarkDefs = None, Node_ListItem = None, Node_Level = None, Node_Raw = []\<rparr>])
        (\<lambda>n. True)
     = Some [\<lparr>Node_Type = ''block'', Node_Key = [], Node_Style = None,
            Node_Children = Some [\<lparr>Span_Type = ''span'', Span_Text = Some ''x'',
                                   Span_Marks = None, Span_Raw = []\<rparr>],
            Node_MarkDefs = None, Node_ListItem = None, Node_Level = None, Node_Raw = []\<rparr>]
   \<and> Encode (Some [\<lparr>Node_Type = ''block'', Node_Key = [], Node_Style = None,
            Node_Children = Some [\<lparr>Span_Type = ''span'', Span_Text = Some ''x'',
                                   Span_Marks = Some [], Span_Raw = []\<rparr>],
            Node_MarkDefs = None, Node_ListItem = None, Node_Level = None, Node_Raw = []\<rparr>])
     = JArr [JObj [(''_type'', JStr ''block''),
          (''children'', JArr [JObj [(''_type'', JStr ''span''), (''text'', JStr ''x''),
                                     (''marks'', JArr [])]])]]
   \<and> Encode (Filter (Some [\<lparr>Node_Type = ''block'', Node_Key = [], Node_Style = None,
            Node_Children = Some [\<lparr>Span_Type = ''span'', Span_Text = Some ''x'',
                                   Span_Marks = Some [], Span_Raw = []\<rparr>],
            Node_MarkDefs = None, Node_ListItem = None, Node_Level = None, Node_Raw = []\<rparr>])
        (\<lambda>n. True))
     = JArr [JObj [(''_type'', JStr ''block''),
          (''children'', JArr [JObj [(''_type'', JStr ''span''), (''text'', JStr ''x'')]])]]"
  by (simp add: parseNode_def parseNode_field_def parseSpan_def parseSpan_field_def showNat_0
      Filter_def Clone_def cloneSpan_def append_nil_def deepCopyMap_def
      Node_MarshalJSON_def Span_MarshalJSON_def)

section \<open>Printing and parsing an integer\<close>

lemma digit_char_code: "d < 10 \<Longrightarrow> (of_char (digit_char d) :: nat) = 48 + d"
proof -
  assume "d < 10"
  then have "d = 0 \<or> d = 1 \<or> d = 2 \<or> d = 3 \<or> d = 4 \<or> d = 5 \<or> d = 6 \<or> d = 7
    \<or> d = 8 \<or> d = 9"
    by arith
  then show ?thesis
    by (elim disjE) (simp_all add: digit_char_def)
qed

lemma is_digit_digit_char: "d < 10 \<Longrightarrow> is_digit (digit_char d)"
  by (simp add: is_digit_def digit_char_code)

lemma showNat_nonempty: "showNat n \<noteq> []"
  by (subst showNat.simps) simp

lemma showNat_digits: "list_all is_digit (showNat n)"
proof (induction n rule: showNat.induct)
  case (1 n)
  show ?case
  proof (cases "n < 10")
    case True
    then show ?thesis
      by (subst showNat.simps) (simp add: is_digit_digit_char)
  next
    case False
    have "n mod 10 < 10" by simp
    then have b: "is_digit (digit_char (n mod 10))" by (rule is_digit_digit_char)
    from False "1.IH" have a: "list_all is_digit (showNat (n div 10))" by simp
    from a b False show ?thesis
      by (subst showNat.simps) simp
  qed
qed

lemma digits_val_snoc: "digits_val (ds @ [c]) = 10 * digits_val ds + (of_char c - 48)"
  by (simp add: digits_val_def)

lemma of_char_digit_int: "d < 10 \<Longrightarrow> (of_char (digit_char d) :: int) - 48 = int d"
proof -
  assume d: "d < 10"
  have "(of_char (digit_char d) :: int) = int (of_char (digit_char d))"
    by (simp add: of_nat_of_char)
  also have "\<dots> = int (48 + d)" using digit_char_code [OF d] by simp
  finally show ?thesis by simp
qed

lemma digits_val_showNat: "digits_val (showNat n) = int n"
proof (induction n rule: showNat.induct)
  case (1 n)
  show ?case
  proof (cases "n < 10")
    case True
    then show ?thesis
      by (subst showNat.simps) (simp add: digits_val_def of_char_digit_int)
  next
    case False
    have m: "n mod 10 < 10" by simp
    from False "1.IH" have "digits_val (showNat (n div 10)) = int (n div 10)" by simp
    with False show ?thesis
      by (subst showNat.simps) (simp add: digits_val_snoc of_char_digit_int [OF m] zdiv_int zmod_int)
  qed
qed

lemma showNat_hd: "hd (showNat n) \<noteq> CHR ''-'' \<and> hd (showNat n) \<noteq> CHR ''+''"
proof -
  from showNat_digits [of n] showNat_nonempty [of n] have "is_digit (hd (showNat n))"
    by (cases "showNat n") simp_all
  then show ?thesis by (auto simp: is_digit_def)
qed

lemma Int64_showNat:
  assumes "int n < 2 ^ 63"
  shows "Int64 (showNat n) = Some (int n)"
  using assms showNat_hd [of n]
  by (simp add: Int64_def Let_def showNat_nonempty showNat_digits digits_val_showNat)

lemma Int64_minus_showNat:
  assumes "int n \<le> 2 ^ 63"
  shows "Int64 (CHR ''-'' # showNat n) = Some (- int n)"
  using assms
  by (simp add: Int64_def Let_def showNat_nonempty showNat_digits digits_val_showNat)

lemma Int64_showInt:
  assumes "- (2 ^ 63) \<le> l" "l < 2 ^ 63"
  shows "Int64 (showInt l) = Some l"
proof (cases "l < 0")
  case True
  with assms have "int (nat (- l)) \<le> 2 ^ 63" by simp
  from Int64_minus_showNat [OF this] True show ?thesis by (simp add: showInt_def)
next
  case False
  with assms have "int (nat l) < 2 ^ 63" by simp
  from Int64_showNat [OF this] False show ?thesis by (simp add: showInt_def)
qed

lemma digits_val_nonneg: "list_all is_digit ds \<Longrightarrow> 0 \<le> digits_val ds"
proof (induction ds rule: rev_induct)
  case Nil
  show ?case by (simp add: digits_val_def)
next
  case (snoc c ds)
  then have "0 \<le> digits_val ds" and "is_digit c" by simp_all
  then have "(48::nat) \<le> of_char c" by (simp add: is_digit_def)
  then have "(48::int) \<le> int (of_char c)" by linarith
  then have "(48::int) \<le> of_char c" by (simp add: of_nat_of_char)
  with \<open>0 \<le> digits_val ds\<close> show ?case by (simp add: digits_val_snoc)
qed

lemma list_all_tl: "list_all P xs \<Longrightarrow> list_all P (tl xs)"
  by (cases xs) simp_all

lemma Int64_range:
  assumes "Int64 s = Some l"
  shows "- (2 ^ 63) \<le> l \<and> l < 2 ^ 63"
proof -
  let ?ds = "if s \<noteq> [] \<and> (hd s = CHR ''-'' \<or> hd s = CHR ''+'') then tl s else s"
  from assms have d: "list_all is_digit ?ds"
    by (simp add: Int64_def Let_def split: if_splits)
  from digits_val_nonneg [OF d] have nn: "0 \<le> digits_val ?ds" .
  from assms nn show ?thesis
    by (simp add: Int64_def Let_def split: if_splits)
qed

end
